theory Spec2Isabelle
  imports Complex_Main "HOL-Library.AList" "HOL-Library.Sublist"
begin

section \<open>Strings\<close>

text \<open>
  Column names and text values are Python \<open>str\<close>; they are modelled as \<open>string\<close>
  (ASCII).  \<open>lower\<close> is \<open>str.lower\<close>, \<open>contains t s\<close> is \<open>t in s\<close>,
  \<open>endswith s suf\<close> is \<open>s.endswith(suf)\<close> and \<open>drop_tail n s\<close> is the slice
  \<open>s[:-n]\<close> for a positive literal \<open>n\<close>.
\<close>

definition lower_char :: "char \<Rightarrow> char" where
  "lower_char c =
     (case map_of (zip ''ABCDEFGHIJKLMNOPQRSTUVWXYZ'' ''abcdefghijklmnopqrstuvwxyz'') c of
        None \<Rightarrow> c
      | Some d \<Rightarrow> d)"

definition lower :: "string \<Rightarrow> string" where
  "lower s = map lower_char s"

fun startswith :: "string \<Rightarrow> string \<Rightarrow> bool" where
  "startswith s [] = True"
| "startswith [] (t # ts) = False"
| "startswith (c # cs) (t # ts) = (c = t \<and> startswith cs ts)"

fun contains :: "string \<Rightarrow> string \<Rightarrow> bool" where
  "contains t [] = (t = [])"
| "contains t (c # cs) = (startswith (c # cs) t \<or> contains t cs)"

definition endswith :: "string \<Rightarrow> string \<Rightarrow> bool" where
  "endswith s suf = (length suf \<le> length s \<and> drop (length s - length suf) s = suf)"

definition drop_tail :: "nat \<Rightarrow> string \<Rightarrow> string" where
  "drop_tail n s = take (length s - n) s"

text \<open>Python compares strings lexicographically by code point.\<close>

fun str_le :: "string \<Rightarrow> string \<Rightarrow> bool" where
  "str_le [] t = True"
| "str_le (c # cs) [] = False"
| "str_le (c # cs) (d # ds) =
     ((of_char c :: nat) < of_char d \<or> (c = d \<and> str_le cs ds))"

section \<open>Tabular data\<close>

text \<open>
  A cell of a pandas column: the missing marker (\<open>NaN\<close>, \<open>None\<close>, \<open>NaT\<close>), a number
  (a finite float or an integer, by its rational value), a text, or a timestamp
  (seconds since the epoch).
\<close>

datatype cell = NA | Num rat | Str string | Date int

datatype dtype = numeric | object | datetime64

datatype error = KeyError string | TypeError | AttributeError | ValueError | ZeroDivisionError

type_synonym 'v dict = "(string \<times> 'v) list"

text \<open>
  A \<open>DataFrame\<close>: the column labels with their dtypes, the rows (one cell per column),
  and the two entries of \<open>df.attrs\<close> that the program uses.  \<open>None\<close> in an attrs field
  means that the key is absent from \<open>df.attrs\<close>.  Dictionaries are association lists in
  insertion order, read with \<open>map_of\<close> and written with \<open>AList.update\<close>.
\<close>

record dataframe =
  columns :: "(string \<times> dtype) list"
  rows :: "cell list list"
  attrs_column_types :: "string list dict option"
  attrs_unique_values :: "cell list dict option"

record series =
  dtype :: dtype
  cells :: "cell list"

text \<open>\<open>data.empty\<close>: no column or no row.\<close>

definition empty :: "dataframe \<Rightarrow> bool" where
  "empty df = (columns df = [] \<or> rows df = [])"

fun col_index :: "string \<Rightarrow> (string \<times> dtype) list \<Rightarrow> nat option" where
  "col_index col [] = None"
| "col_index col ((name, dt) # cs) =
     (if name = col then Some 0 else map_option Suc (col_index col cs))"

definition cell_at :: "cell list \<Rightarrow> nat \<Rightarrow> cell" where
  "cell_at r i = (if i < length r then r ! i else NA)"

text \<open>\<open>data[col]\<close>: the column as a series, or \<open>KeyError\<close>.\<close>

definition getitem :: "dataframe \<Rightarrow> string \<Rightarrow> error + series" where
  "getitem df col =
     (case col_index col (columns df) of
        None \<Rightarrow> Inl (KeyError col)
      | Some i \<Rightarrow>
          Inr \<lparr>dtype = snd (columns df ! i), cells = map (\<lambda>r. cell_at r i) (rows df)\<rparr>)"

section \<open>The environment\<close>

text \<open>
  What the program calls and does not define: the text parsers of pandas and Python,
  and the user behind the Streamlit widgets.  A widget call is recorded with the column
  it is made for (the label is a fixed text around the column name), its arguments and
  its key; the user's answer is a function of the call.
\<close>

datatype widget_key =
    FilterKey string nat
  | DateRangeKey string nat
  | RangeKey string nat
  | BasicFilterKey string

datatype st_call =
    Selectbox string "cell list" widget_key
  | DateInput string "int \<times> int" int int widget_key
  | Slider string rat rat "rat \<times> rat" rat widget_key
  | Write string
  | Error string error

record env =
  parse_datetime :: "string \<Rightarrow> int option"
  parse_float :: "string \<Rightarrow> rat option"
  ui_selectbox :: "st_call \<Rightarrow> cell"
  ui_date_input :: "st_call \<Rightarrow> int list"
  ui_slider :: "st_call \<Rightarrow> rat \<times> rat"

text \<open>\<open>pd.to_datetime(s)\<close> succeeds when every text of the column parses.\<close>

definition to_datetime_ok :: "env \<Rightarrow> series \<Rightarrow> bool" where
  "to_datetime_ok env s =
     list_all (\<lambda>x. case x of Str t \<Rightarrow> parse_datetime env t \<noteq> None | _ \<Rightarrow> True) (cells s)"

text \<open>
  \<open>x.date()\<close>: the calendar day of a timestamp.  A text or a number has no such
  method; for the missing timestamp the source ends in its handler as well.
\<close>

fun date_of :: "cell \<Rightarrow> error + int" where
  "date_of (Date t) = Inr (t div 86400)"
| "date_of NA = Inl ValueError"
| "date_of x = Inl AttributeError"

text \<open>\<open>pd.to_datetime(d)\<close> of a calendar day: midnight of that day.\<close>

definition timestamp_of_date :: "int \<Rightarrow> cell" where
  "timestamp_of_date d = Date (d * 86400)"

text \<open>\<open>float(x)\<close>; a column without values ends in the handler.\<close>

definition float_of :: "env \<Rightarrow> cell \<Rightarrow> error + rat" where
  "float_of env x =
     (case x of
        Num a \<Rightarrow> Inr a
      | Str t \<Rightarrow> (case parse_float env t of None \<Rightarrow> Inl ValueError | Some a \<Rightarrow> Inr a)
      | Date t \<Rightarrow> Inl TypeError
      | NA \<Rightarrow> Inl ValueError)"


section \<open>Comparing a column with a scalar\<close>

text \<open>
  Ordering comparisons are defined between two numbers, two texts or two timestamps.
  A missing cell compares false with everything.  A text that is compared with a
  datetime column is parsed first: when it parses, the timestamp it denotes takes its
  place.  The rest depends on the dtype.  A numeric column orders numbers, answers false
  everywhere to the missing marker, and refuses every other scalar with \<open>TypeError\<close>.
  A datetime column orders timestamps (and texts that parse) and refuses every other
  scalar.  An object column is compared cell by cell, and a cell that is not missing and
  not of the scalar's kind raises \<open>TypeError\<close>.  Equality never raises: where an
  ordering would be refused it is false.  As a scalar, the missing marker stands for
  \<open>None\<close> or \<open>NaN\<close>.

  Numbers are compared by their values.  pandas compares an integer with a float in
  float64, which is the same as long as the integers involved are at most \<open>2^53\<close> in
  magnitude; \<open>float_exact\<close> and \<open>typed_series\<close> below name that range.
\<close>

fun cell_le :: "cell \<Rightarrow> cell \<Rightarrow> bool" where
  "cell_le (Num a) (Num b) = (a \<le> b)"
| "cell_le (Str a) (Str b) = str_le a b"
| "cell_le (Date a) (Date b) = (a \<le> b)"
| "cell_le x y = False"

fun same_kind :: "cell \<Rightarrow> cell \<Rightarrow> bool" where
  "same_kind (Num a) (Num b) = True"
| "same_kind (Str a) (Str b) = True"
| "same_kind (Date a) (Date b) = True"
| "same_kind x y = False"

definition cmp_ok :: "cell \<Rightarrow> cell \<Rightarrow> bool" where
  "cmp_ok x v = (x = NA \<or> v = NA \<or> same_kind x v)"

text \<open>The scalar as the column's dtype reads it.\<close>

definition coerce_scalar :: "env \<Rightarrow> dtype \<Rightarrow> cell \<Rightarrow> cell" where
  "coerce_scalar env dt v =
     (case v of
        Str t \<Rightarrow>
          (if dt = datetime64
           then (case parse_datetime env t of None \<Rightarrow> Str t | Some ts \<Rightarrow> Date ts)
           else Str t)
      | _ \<Rightarrow> v)"

fun dtype_accepts :: "dtype \<Rightarrow> cell \<Rightarrow> bool" where
  "dtype_accepts numeric v = (case v of NA \<Rightarrow> True | Num a \<Rightarrow> True | _ \<Rightarrow> False)"
| "dtype_accepts datetime64 v = (case v of Date a \<Rightarrow> True | _ \<Rightarrow> False)"
| "dtype_accepts object v = True"

definition ordering_ok :: "series \<Rightarrow> cell \<Rightarrow> bool" where
  "ordering_ok s v = (dtype_accepts (dtype s) v \<and> (\<forall>x \<in> set (cells s). cmp_ok x v))"

text \<open>\<open>s >= v\<close>, \<open>s <= v\<close> and \<open>s == v\<close>: boolean masks, one entry per row.\<close>

definition series_ge :: "env \<Rightarrow> series \<Rightarrow> cell \<Rightarrow> error + bool list" where
  "series_ge env s v =
     (let w = coerce_scalar env (dtype s) v
      in if ordering_ok s w then Inr (map (\<lambda>x. cell_le w x) (cells s)) else Inl TypeError)"

definition series_le :: "env \<Rightarrow> series \<Rightarrow> cell \<Rightarrow> error + bool list" where
  "series_le env s v =
     (let w = coerce_scalar env (dtype s) v
      in if ordering_ok s w then Inr (map (\<lambda>x. cell_le x w) (cells s)) else Inl TypeError)"

definition series_eq :: "env \<Rightarrow> series \<Rightarrow> cell \<Rightarrow> bool list" where
  "series_eq env s v =
     (let w = coerce_scalar env (dtype s) v in map (\<lambda>x. x \<noteq> NA \<and> x = w) (cells s))"

text \<open>\<open>df[mask]\<close>: the rows whose mask entry is true; labels, dtypes and attrs are kept.\<close>

definition boolean_index :: "dataframe \<Rightarrow> bool list \<Rightarrow> dataframe" where
  "boolean_index df msk = df\<lparr>rows := map snd (filter fst (zip msk (rows df)))\<rparr>"

section \<open>The filter applier (\<open>utils/dynamic_filters.py\<close>, \<open>apply_filters\<close>)\<close>

text \<open>
  One iteration of \<open>for key, value in filters.items()\<close>: the suffix of the key selects
  the comparison and the slice removes it.  The column lookup and the comparison may
  raise; nothing in the function catches that.
\<close>

definition filter_step :: "env \<Rightarrow> dataframe \<Rightarrow> string \<Rightarrow> cell \<Rightarrow> error + dataframe" where
  "filter_step env filtered_data key val =
     (if endswith key ''_min'' then
        (case getitem filtered_data (drop_tail 4 key) of
           Inl e \<Rightarrow> Inl e
         | Inr s \<Rightarrow> (case series_ge env s val of
                      Inl e \<Rightarrow> Inl e
                    | Inr msk \<Rightarrow> Inr (boolean_index filtered_data msk)))
      else if endswith key ''_max'' then
        (case getitem filtered_data (drop_tail 4 key) of
           Inl e \<Rightarrow> Inl e
         | Inr s \<Rightarrow> (case series_le env s val of
                      Inl e \<Rightarrow> Inl e
                    | Inr msk \<Rightarrow> Inr (boolean_index filtered_data msk)))
      else if endswith key ''_start'' then
        (case getitem filtered_data (drop_tail 6 key) of
           Inl e \<Rightarrow> Inl e
         | Inr s \<Rightarrow> (case series_ge env s val of
                      Inl e \<Rightarrow> Inl e
                    | Inr msk \<Rightarrow> Inr (boolean_index filtered_data msk)))
      else if endswith key ''_end'' then
        (case getitem filtered_data (drop_tail 4 key) of
           Inl e \<Rightarrow> Inl e
         | Inr s \<Rightarrow> (case series_le env s val of
                      Inl e \<Rightarrow> Inl e
                    | Inr msk \<Rightarrow> Inr (boolean_index filtered_data msk)))
      else
        (case getitem filtered_data key of
           Inl e \<Rightarrow> Inl e
         | Inr s \<Rightarrow> Inr (boolean_index filtered_data (series_eq env s val))))"

fun filter_loop :: "env \<Rightarrow> dataframe \<Rightarrow> cell dict \<Rightarrow> error + dataframe" where
  "filter_loop env filtered_data [] = Inr filtered_data"
| "filter_loop env filtered_data ((key, val) # rest) =
     (case filter_step env filtered_data key val of
        Inl e \<Rightarrow> Inl e
      | Inr fd \<Rightarrow> filter_loop env fd rest)"

text \<open>
  \<open>apply_filters(data, filters)\<close> on values.  \<open>data\<close> may be \<open>None\<close>; an empty
  selection map, \<open>None\<close> and an empty frame are returned as they are.  The environment
  is there for the date parser of the comparisons.
\<close>

definition apply_filters ::
  "env \<Rightarrow> dataframe option \<Rightarrow> cell dict \<Rightarrow> error + dataframe option" where
  "apply_filters env data filters =
     (case data of
        None \<Rightarrow> Inr None
      | Some df \<Rightarrow>
          if filters = [] \<or> empty df then Inr (Some df)
          else (case filter_loop env df filters of
                  Inl e \<Rightarrow> Inl e
                | Inr fd \<Rightarrow> Inr (Some fd)))"


subsection \<open>Object identity\<close>

text \<open>
  The caller's frames live in a store; a reference is an index into it.  \<open>data.copy()\<close>
  and \<open>df[mask]\<close> allocate a new frame, an assignment to \<open>filtered_data\<close> rebinds the
  local variable.  \<open>apply_filters_obj\<close> is \<open>apply_filters\<close> with the store written out.
\<close>

type_synonym heap = "dataframe list"

definition alloc :: "heap \<Rightarrow> dataframe \<Rightarrow> heap \<times> nat" where
  "alloc h df = (h @ [df], length h)"

fun filter_loop_obj :: "env \<Rightarrow> heap \<Rightarrow> nat \<Rightarrow> cell dict \<Rightarrow> error + heap \<times> nat" where
  "filter_loop_obj env h filtered_data [] = Inr (h, filtered_data)"
| "filter_loop_obj env h filtered_data ((key, val) # rest) =
     (case filter_step env (h ! filtered_data) key val of
        Inl e \<Rightarrow> Inl e
      | Inr df \<Rightarrow> (case alloc h df of (h', fd) \<Rightarrow> filter_loop_obj env h' fd rest))"

definition apply_filters_obj ::
  "env \<Rightarrow> heap \<Rightarrow> nat option \<Rightarrow> cell dict \<Rightarrow> error + heap \<times> nat option" where
  "apply_filters_obj env h data filters =
     (case data of
        None \<Rightarrow> Inr (h, None)
      | Some r \<Rightarrow>
          if filters = [] \<or> empty (h ! r) then Inr (h, Some r)
          else (case alloc h (h ! r) of
                  (h1, filtered_data) \<Rightarrow>
                    (case filter_loop_obj env h1 filtered_data filters of
                       Inl e \<Rightarrow> Inl e
                     | Inr (h', res) \<Rightarrow> Inr (h', Some res))))"

section \<open>Column statistics\<close>

definition isna_all :: "series \<Rightarrow> bool" where
  "isna_all s = list_all (\<lambda>x. x = NA) (cells s)"

definition dropna :: "cell list \<Rightarrow> cell list" where
  "dropna xs = filter (\<lambda>x. x \<noteq> NA) xs"

text \<open>\<open>unique()\<close>: the distinct values in order of first appearance.\<close>

definition unique :: "cell list \<Rightarrow> cell list" where
  "unique xs = rev (remdups (rev xs))"

definition nunique :: "series \<Rightarrow> nat" where
  "nunique s = length (unique (dropna (cells s)))"

text \<open>
  \<open>sorted(xs)\<close> on distinct values: any two of them that are not of one kind make the
  comparison raise \<open>TypeError\<close>; a list of fewer than two values is never compared.
\<close>

definition sortable :: "cell list \<Rightarrow> bool" where
  "sortable xs = (length xs \<le> 1 \<or> list_all (same_kind (hd xs)) xs)"

fun insort_cell :: "cell \<Rightarrow> cell list \<Rightarrow> cell list" where
  "insort_cell x [] = [x]"
| "insort_cell x (y # ys) = (if cell_le x y then x # y # ys else y # insort_cell x ys)"

definition py_sorted :: "cell list \<Rightarrow> error + cell list" where
  "py_sorted xs = (if sortable xs then Inr (foldr insort_cell xs []) else Inl TypeError)"

text \<open>
  \<open>s.min()\<close> and \<open>s.max()\<close> skip missing cells; a column with no value gives the
  missing marker.
\<close>

definition series_min :: "series \<Rightarrow> error + cell" where
  "series_min s =
     (let xs = dropna (cells s) in
      if xs = [] then Inr NA
      else if sortable xs then Inr (foldl (\<lambda>a x. if cell_le x a then x else a) (hd xs) (tl xs))
      else Inl TypeError)"

definition series_max :: "series \<Rightarrow> error + cell" where
  "series_max s =
     (let xs = dropna (cells s) in
      if xs = [] then Inr NA
      else if sortable xs then Inr (foldl (\<lambda>a x. if cell_le a x then x else a) (hd xs) (tl xs))
      else Inl TypeError)"

section \<open>The column classifier (\<open>utils/data_manager.py\<close>, \<open>detect_column_types\<close>)\<close>

definition id_terms :: "string list" where
  "id_terms = [''id'', ''code'', ''number'', ''no.'', ''key'']"

definition money_terms :: "string list" where
  "money_terms = [''amount'', ''price'', ''cost'', ''value'', ''spend'', ''budget'', ''revenue'']"

definition date_terms :: "string list" where
  "date_terms = [''date'', ''day'', ''month'', ''year'', ''time'', ''period'', ''quarter'']"

text \<open>\<open>any(term in col.lower() for term in terms)\<close>\<close>

definition name_has :: "string list \<Rightarrow> string \<Rightarrow> bool" where
  "name_has terms col = list_ex (\<lambda>t. contains t (lower col)) terms"

text \<open>The six lists and the dictionary that the loop fills.\<close>

record type_lists =
  numeric_cols :: "string list"
  date_cols :: "string list"
  monetary_cols :: "string list"
  categorical_cols :: "string list"
  id_cols :: "string list"
  text_cols :: "string list"
  unique_vals :: "cell list dict"

text \<open>
  \<open>n_unique <= 50 or (n_unique / n_total <= 0.2 and n_unique <= 100)\<close>.  The division
  is evaluated only when the first test fails.  The quotient of two counts and the
  constant are floats in the source; for a count of at most 100 the rounded comparison
  agrees with the exact one, and beyond 100 the second conjunct decides.
\<close>

definition looks_categorical :: "nat \<Rightarrow> nat \<Rightarrow> error + bool" where
  "looks_categorical n_unique n_total =
     (if n_unique \<le> 50 then Inr True
      else if n_total = 0 then Inl ZeroDivisionError
      else Inr ((of_nat n_unique :: rat) / of_nat n_total \<le> 2 / 10 \<and> n_unique \<le> 100))"

text \<open>
  The body of \<open>for col in df.columns\<close>.  The \<open>try\<close> around the date conversion catches
  everything, so a failed conversion only means that the branch is not taken.
\<close>

definition detect_step :: "env \<Rightarrow> dataframe \<Rightarrow> string \<Rightarrow> type_lists \<Rightarrow> error + type_lists" where
  "detect_step env df col acc =
     (case getitem df col of
        Inl e \<Rightarrow> Inl e
      | Inr s \<Rightarrow>
          if isna_all s then Inr acc
          else if name_has id_terms col then Inr (acc\<lparr>id_cols := id_cols acc @ [col]\<rparr>)
          else if dtype s = numeric then
            (if name_has money_terms col
             then Inr (acc\<lparr>monetary_cols := monetary_cols acc @ [col]\<rparr>)
             else Inr (acc\<lparr>numeric_cols := numeric_cols acc @ [col]\<rparr>))
          else if name_has date_terms col \<and> to_datetime_ok env s
          then Inr (acc\<lparr>date_cols := date_cols acc @ [col]\<rparr>)
          else
            (case looks_categorical (nunique s) (length (dropna (cells s))) of
               Inl e \<Rightarrow> Inl e
             | Inr True \<Rightarrow>
                 (case py_sorted (unique (dropna (cells s))) of
                    Inl e \<Rightarrow> Inl e
                  | Inr vs \<Rightarrow>
                      Inr (acc\<lparr>categorical_cols := categorical_cols acc @ [col],
                                unique_vals := AList.update col vs (unique_vals acc)\<rparr>))
             | Inr False \<Rightarrow> Inr (acc\<lparr>text_cols := text_cols acc @ [col]\<rparr>)))"

fun detect_loop :: "env \<Rightarrow> dataframe \<Rightarrow> string list \<Rightarrow> type_lists \<Rightarrow> error + type_lists" where
  "detect_loop env df [] acc = Inr acc"
| "detect_loop env df (col # rest) acc =
     (case detect_step env df col acc of
        Inl e \<Rightarrow> Inl e
      | Inr acc' \<Rightarrow> detect_loop env df rest acc')"

definition no_types :: type_lists where
  "no_types = \<lparr>numeric_cols = [], date_cols = [], monetary_cols = [], categorical_cols = [],
               id_cols = [], text_cols = [], unique_vals = []\<rparr>"

text \<open>
  \<open>detect_column_types(df)\<close> returns nothing and writes \<open>df.attrs\<close>; the model returns
  the frame with the two attrs entries set.  When the loop raises, nothing was written.
\<close>

definition detect_column_types :: "env \<Rightarrow> dataframe \<Rightarrow> error + dataframe" where
  "detect_column_types env df =
     (case detect_loop env df (map fst (columns df)) no_types of
        Inl e \<Rightarrow> Inl e
      | Inr acc \<Rightarrow>
          Inr (df\<lparr>attrs_column_types :=
                     Some [(''numeric'', numeric_cols acc),
                           (''date'', date_cols acc),
                           (''monetary'', monetary_cols acc),
                           (''categorical'', categorical_cols acc),
                           (''id'', id_cols acc),
                           (''text'', text_cols acc)],
                   attrs_unique_values := Some (unique_vals acc)\<rparr>))"

text \<open>The same on the store: the frame behind the reference is updated in place.\<close>

definition detect_column_types_obj :: "env \<Rightarrow> heap \<Rightarrow> nat \<Rightarrow> error + heap" where
  "detect_column_types_obj env h r =
     (case detect_column_types env (h ! r) of
        Inl e \<Rightarrow> Inl e
      | Inr df \<Rightarrow> Inr (h[r := df]))"

section \<open>The filter synthesizer (\<open>utils/dynamic_filters.py\<close>, \<open>generate_dynamic_filters\<close>)\<close>

text \<open>
  The local state of the function: the selections made so far, the counter, and the
  Streamlit calls made so far (its visible effect).
\<close>

record gen_state =
  filters :: "cell dict"
  filter_count :: nat
  rendered :: "st_call list"

text \<open>\<open>columns is not None and col not in columns\<close>\<close>

definition not_requested :: "string list option \<Rightarrow> string \<Rightarrow> bool" where
  "not_requested only col = (case only of None \<Rightarrow> False | Some cs \<Rightarrow> col \<notin> set cs)"

text \<open>\<open>d.get(k, [])\<close>\<close>

definition dict_get :: "'v list dict \<Rightarrow> string \<Rightarrow> 'v list" where
  "dict_get d k = (case map_of d k of None \<Rightarrow> [] | Some v \<Rightarrow> v)"

text \<open>\<open>xs[:n]\<close> for a Python integer \<open>n\<close>: a negative \<open>n\<close> counts from the end.\<close>

definition py_take :: "int \<Rightarrow> 'a list \<Rightarrow> 'a list" where
  "py_take n xs = (if 0 \<le> n then take (nat n) xs else take (length xs - nat (- n)) xs)"

text \<open>\<open>sorted(data[col].dropna().unique().tolist())\<close>\<close>

definition sorted_values :: "dataframe \<Rightarrow> string \<Rightarrow> error + cell list" where
  "sorted_values data col =
     (case getitem data col of
        Inl e \<Rightarrow> Inl e
      | Inr s \<Rightarrow> py_sorted (unique (dropna (cells s))))"

definition categorical_values :: "dataframe \<Rightarrow> cell list dict \<Rightarrow> string \<Rightarrow> error + cell list" where
  "categorical_values data uv col =
     (case map_of uv col of
        Some vs \<Rightarrow> Inr vs
      | None \<Rightarrow> sorted_values data col)"

text \<open>
  The select box with its ``All'' option, and the selection it leaves in \<open>filters\<close>.
  Both paths of the function contain these lines; only the key differs.
\<close>

definition selectbox_step :: "env \<Rightarrow> string \<Rightarrow> cell list \<Rightarrow> widget_key \<Rightarrow> gen_state \<Rightarrow> gen_state" where
  "selectbox_step env col vals key st =
     (let all_option = Str (''All '' @ col);
          call = Selectbox col (all_option # vals) key;
          selected = ui_selectbox env call
      in st\<lparr>filters := (if selected \<noteq> all_option
                          then AList.update col selected (filters st) else filters st),
             rendered := rendered st @ [call]\<rparr>)"

fun categorical_loop ::
  "env \<Rightarrow> dataframe \<Rightarrow> string list option \<Rightarrow> int \<Rightarrow> cell list dict \<Rightarrow> string list \<Rightarrow>
   gen_state \<Rightarrow> (error \<times> gen_state) + gen_state" where
  "categorical_loop env data only max_filters uv [] st = Inr st"
| "categorical_loop env data only max_filters uv (col # rest) st =
     (if not_requested only col then categorical_loop env data only max_filters uv rest st
      else if max_filters \<le> int (filter_count st) then Inr st
      else
        (case categorical_values data uv col of
           Inl e \<Rightarrow> Inl (e, st)
         | Inr vals \<Rightarrow>
             if length vals \<le> 100
             then categorical_loop env data only max_filters uv rest
                    ((selectbox_step env col vals (FilterKey col (filter_count st)) st)
                       \<lparr>filter_count := filter_count st + 1\<rparr>)
             else categorical_loop env data only max_filters uv rest st))"

text \<open>\<open>data[col].min().date()\<close> and \<open>data[col].max().date()\<close>\<close>

definition date_bounds :: "dataframe \<Rightarrow> string \<Rightarrow> error + int \<times> int" where
  "date_bounds data col =
     (case getitem data col of
        Inl e \<Rightarrow> Inl e
      | Inr s \<Rightarrow>
          (case series_min s of
             Inl e \<Rightarrow> Inl e
           | Inr lo \<Rightarrow>
               (case date_of lo of
                  Inl e \<Rightarrow> Inl e
                | Inr min_date \<Rightarrow>
                    (case series_max s of
                       Inl e \<Rightarrow> Inl e
                     | Inr hi \<Rightarrow>
                         (case date_of hi of
                            Inl e \<Rightarrow> Inl e
                          | Inr max_date \<Rightarrow> Inr (min_date, max_date))))))"

text \<open>The \<open>try\<close> block of the date loop; its handler reports with \<open>st.error\<close>.\<close>

definition date_step :: "env \<Rightarrow> dataframe \<Rightarrow> string \<Rightarrow> gen_state \<Rightarrow> gen_state" where
  "date_step env data col st =
     (case date_bounds data col of
        Inl e \<Rightarrow> st\<lparr>rendered := rendered st @ [Error col e]\<rparr>
      | Inr (min_date, max_date) \<Rightarrow>
          if min_date \<noteq> max_date then
            (let call = DateInput col (min_date, max_date) min_date max_date
                          (DateRangeKey col (filter_count st));
                 date_range = ui_date_input env call
             in st\<lparr>filters :=
                      (if length date_range = 2
                       then AList.update (col @ ''_end'') (timestamp_of_date (date_range ! 1))
                              (AList.update (col @ ''_start'') (timestamp_of_date (date_range ! 0))
                                 (filters st))
                       else filters st),
                    filter_count := filter_count st + 1,
                    rendered := rendered st @ [Write (''Filter by '' @ col @ '' date range:''), call]\<rparr>)
          else st)"

fun date_loop ::
  "env \<Rightarrow> dataframe \<Rightarrow> string list option \<Rightarrow> int \<Rightarrow> string list \<Rightarrow> gen_state \<Rightarrow> gen_state" where
  "date_loop env data only max_filters [] st = st"
| "date_loop env data only max_filters (col # rest) st =
     (if not_requested only col then date_loop env data only max_filters rest st
      else if max_filters \<le> int (filter_count st) then st
      else date_loop env data only max_filters rest (date_step env data col st))"

text \<open>\<open>float(data[col].min())\<close> and \<open>float(data[col].max())\<close>\<close>

definition numeric_bounds :: "env \<Rightarrow> dataframe \<Rightarrow> string \<Rightarrow> error + rat \<times> rat" where
  "numeric_bounds env data col =
     (case getitem data col of
        Inl e \<Rightarrow> Inl e
      | Inr s \<Rightarrow>
          (case series_min s of
             Inl e \<Rightarrow> Inl e
           | Inr lo \<Rightarrow>
               (case float_of env lo of
                  Inl e \<Rightarrow> Inl e
                | Inr min_val \<Rightarrow>
                    (case series_max s of
                       Inl e \<Rightarrow> Inl e
                     | Inr hi \<Rightarrow>
                         (case float_of env hi of
                            Inl e \<Rightarrow> Inl e
                          | Inr max_val \<Rightarrow> Inr (min_val, max_val))))))"

text \<open>The slider step is the exact quotient here; the source rounds it to a float.\<close>

definition step_size :: "rat \<Rightarrow> rat" where
  "step_size range_size =
     (if range_size > 1000 then range_size / 100
      else if range_size > 100 then 1
      else if range_size > 10 then 1 / 10
      else 1 / 100)"

definition numeric_step :: "env \<Rightarrow> dataframe \<Rightarrow> string \<Rightarrow> gen_state \<Rightarrow> gen_state" where
  "numeric_step env data col st =
     (case numeric_bounds env data col of
        Inl e \<Rightarrow> st\<lparr>rendered := rendered st @ [Error col e]\<rparr>
      | Inr (min_val, max_val) \<Rightarrow>
          if min_val \<noteq> max_val then
            (let call = Slider col min_val max_val (min_val, max_val)
                          (step_size (max_val - min_val)) (RangeKey col (filter_count st))
             in case ui_slider env call of
                  (min_selected, max_selected) \<Rightarrow>
                    st\<lparr>filters :=
                         (if min_selected > min_val \<or> max_selected < max_val
                          then AList.update (col @ ''_max'') (Num max_selected)
                                 (AList.update (col @ ''_min'') (Num min_selected) (filters st))
                          else filters st),
                       filter_count := filter_count st + 1,
                       rendered := rendered st @ [Write (''Filter by '' @ col @ '' range:''), call]\<rparr>)
          else st)"

fun numeric_loop ::
  "env \<Rightarrow> dataframe \<Rightarrow> string list option \<Rightarrow> int \<Rightarrow> string list \<Rightarrow> gen_state \<Rightarrow> gen_state" where
  "numeric_loop env data only max_filters [] st = st"
| "numeric_loop env data only max_filters (col # rest) st =
     (if not_requested only col then numeric_loop env data only max_filters rest st
      else if max_filters \<le> int (filter_count st) then st
      else numeric_loop env data only max_filters rest (numeric_step env data col st))"

text \<open>The path without \<open>column_types\<close>: the columns that look categorical.\<close>

fun cat_cols_of :: "dataframe \<Rightarrow> string list option \<Rightarrow> string list \<Rightarrow> error + string list" where
  "cat_cols_of data only [] = Inr []"
| "cat_cols_of data only (col # rest) =
     (if not_requested only col then cat_cols_of data only rest
      else
        (case getitem data col of
           Inl e \<Rightarrow> Inl e
         | Inr s \<Rightarrow>
             (case cat_cols_of data only rest of
                Inl e \<Rightarrow> Inl e
              | Inr cs \<Rightarrow>
                  Inr (if dtype s = object \<or> length (unique (cells s)) < 10
                       then col # cs else cs))))"

fun basic_loop ::
  "env \<Rightarrow> dataframe \<Rightarrow> string list \<Rightarrow> gen_state \<Rightarrow> (error \<times> gen_state) + gen_state" where
  "basic_loop env data [] st = Inr st"
| "basic_loop env data (col # rest) st =
     (case sorted_values data col of
        Inl e \<Rightarrow> Inl (e, st)
      | Inr vals \<Rightarrow>
          basic_loop env data rest
            (if length vals \<le> 100
             then selectbox_step env col vals (BasicFilterKey col) st else st))"

text \<open>\<open>data.attrs.get('unique_values', {})\<close>\<close>

definition stored_values :: "dataframe \<Rightarrow> cell list dict" where
  "stored_values df = (case attrs_unique_values df of None \<Rightarrow> [] | Some uv \<Rightarrow> uv)"

definition initial_state :: gen_state where
  "initial_state = \<lparr>filters = [], filter_count = 0, rendered = []\<rparr>"

text \<open>
  \<open>generate_dynamic_filters(data, columns, max_filters)\<close>.  The result is the final
  state, whose \<open>filters\<close> field is the returned dictionary; an exception that leaves the
  function comes with the state reached, since the widgets made before it stay on the
  page.  The \<open>container\<close> argument is ignored by the source.
\<close>

definition generate_dynamic_filters ::
  "env \<Rightarrow> dataframe option \<Rightarrow> string list option \<Rightarrow> int \<Rightarrow> (error \<times> gen_state) + gen_state" where
  "generate_dynamic_filters env data only max_filters =
     (case data of
        None \<Rightarrow> Inr initial_state
      | Some df \<Rightarrow>
          if empty df then Inr initial_state
          else
            (case attrs_column_types df of
               Some column_types \<Rightarrow>
                 (case categorical_loop env df only max_filters
                         (stored_values df)
                         (dict_get column_types ''categorical'') initial_state of
                    Inl e \<Rightarrow> Inl e
                  | Inr st1 \<Rightarrow>
                      Inr (numeric_loop env df only max_filters (dict_get column_types ''numeric'')
                             (date_loop env df only max_filters (dict_get column_types ''datetime'')
                                st1)))
             | None \<Rightarrow>
                 (case cat_cols_of df only (map fst (columns df)) of
                    Inl e \<Rightarrow> Inl (e, initial_state)
                  | Inr cat_cols \<Rightarrow> basic_loop env df (py_take max_filters cat_cols) initial_state)))"

subsection \<open>Filter specifications\<close>

text \<open>
  A filter specification in the sense of the specification is a rendered control: a
  select box is an enum choice, a date input is a date range and a slider is a numeric
  range.  Texts and error
  messages are not controls.
\<close>

datatype filter_spec = EnumChoice string | DateRange string | NumericRange string

fun spec_of :: "st_call \<Rightarrow> filter_spec option" where
  "spec_of (Selectbox col opts key) = Some (EnumChoice col)"
| "spec_of (DateInput col v lo hi key) = Some (DateRange col)"
| "spec_of (Slider col lo hi v step key) = Some (NumericRange col)"
| "spec_of (Write t) = None"
| "spec_of (Error col e) = None"

definition specs :: "gen_state \<Rightarrow> filter_spec list" where
  "specs st = List.map_filter spec_of (rendered st)"

fun spec_col :: "filter_spec \<Rightarrow> string" where
  "spec_col (EnumChoice col) = col"
| "spec_col (DateRange col) = col"
| "spec_col (NumericRange col) = col"

text \<open>The state that a call ends with, returned or raised.\<close>

definition final_state :: "(error \<times> gen_state) + gen_state \<Rightarrow> gen_state" where
  "final_state res = (case res of Inl (e, st) \<Rightarrow> st | Inr st \<Rightarrow> st)"


section \<open>The end-to-end scenario\<close>

text \<open>
  Two hundred rows with the columns \<open>Supplier\<close> (20 distinct texts), \<open>Category\<close>
  (5 distinct texts), \<open>Amount\<close> (numbers from 100 to 49850) and \<open>Date\<close> (date texts),
  as a file loader delivers them: no attrs yet.
\<close>

definition scenario_row :: "nat \<Rightarrow> cell list" where
  "scenario_row i =
     [Str (''Supplier '' @ [''ABCDEFGHIJKLMNOPQRST'' ! (i mod 20)]),
      Str (''Category '' @ [''ABCDE'' ! (i mod 5)]),
      Num (of_nat (100 + 250 * i)),
      Str (if even i then ''2022-01-01'' else ''2023-12-31'')]"

definition scenario_df :: dataframe where
  "scenario_df =
     \<lparr>columns = [(''Supplier'', object), (''Category'', object), (''Amount'', numeric),
                 (''Date'', object)],
      rows = map scenario_row [0..<200],
      attrs_column_types = None,
      attrs_unique_values = None\<rparr>"

text \<open>
  An environment for concrete runs: the two date texts of the scenario parse, no text is
  a number, and the user leaves every widget at its default.
\<close>

definition default_env :: env where
  "default_env =
     \<lparr>parse_datetime = (\<lambda>t. if t = ''2022-01-01'' then Some 1640995200
                            else if t = ''2023-12-31'' then Some 1703980800 else None),
      parse_float = (\<lambda>t. None),
      ui_selectbox = (\<lambda>c. case c of Selectbox col opts key \<Rightarrow> hd opts | _ \<Rightarrow> NA),
      ui_date_input = (\<lambda>c. case c of DateInput col v lo hi key \<Rightarrow> [fst v, snd v] | _ \<Rightarrow> []),
      ui_slider = (\<lambda>c. case c of Slider col lo hi v step key \<Rightarrow> v | _ \<Rightarrow> (0, 0))\<rparr>"

text \<open>The classifier followed by the synthesizer, as the application runs them.\<close>

definition classify_then_synthesize ::
  "env \<Rightarrow> dataframe \<Rightarrow> string list option \<Rightarrow> int \<Rightarrow> (error \<times> gen_state) + gen_state" where
  "classify_then_synthesize env df only max_filters =
     (case detect_column_types env df of
        Inl e \<Rightarrow> Inl (e, initial_state)
      | Inr df' \<Rightarrow> generate_dynamic_filters env (Some df') only max_filters)"


section \<open>Reading a selection\<close>

text \<open>
  The specification describes a selection by its key: a plain key asks for equality with
  the chosen value, a key ending in \<open>_min\<close> or \<open>_start\<close> for a lower bound, a key ending
  in \<open>_max\<close> or \<open>_end\<close> for an upper bound, each on the column named by the key without
  its suffix.  These definitions follow that description; the theorems below compare
  \<open>apply_filters\<close> with them.
\<close>

definition selection_col :: "string \<Rightarrow> string" where
  "selection_col key =
     (if endswith key ''_min'' \<or> endswith key ''_max'' \<or> endswith key ''_end''
      then drop_tail 4 key
      else if endswith key ''_start'' then drop_tail 6 key
      else key)"

datatype comparison = Equal | AtLeast | AtMost

definition selection_kind :: "string \<Rightarrow> comparison" where
  "selection_kind key =
     (if endswith key ''_min'' \<or> endswith key ''_start'' then AtLeast
      else if endswith key ''_max'' \<or> endswith key ''_end'' then AtMost
      else Equal)"

fun holds :: "comparison \<Rightarrow> cell \<Rightarrow> cell \<Rightarrow> bool" where
  "holds Equal x v = (x \<noteq> NA \<and> x = v)"
| "holds AtLeast x v = cell_le v x"
| "holds AtMost x v = cell_le x v"

text \<open>
  A row satisfies a selection when its cell in the selected column does, the chosen
  value being read as the column's dtype reads it.
\<close>

definition row_satisfies ::
  "env \<Rightarrow> (string \<times> dtype) list \<Rightarrow> string \<Rightarrow> cell \<Rightarrow> cell list \<Rightarrow> bool" where
  "row_satisfies env cols key v r =
     (case col_index (selection_col key) cols of
        None \<Rightarrow> False
      | Some i \<Rightarrow> holds (selection_kind key) (cell_at r i) (coerce_scalar env (snd (cols ! i)) v))"

text \<open>
  The frames that pandas can hold, and the range in which numbers are compared by their
  values: a numeric column holds numbers and missing cells, a datetime column
  timestamps and missing cells, an object column anything; a number is an integer of
  at most \<open>2^53\<close> in magnitude or not an integer at all (then it is a float).  A chosen
  value is a value, not the missing marker, and a number in that range.
\<close>

definition float_exact :: "rat \<Rightarrow> bool" where
  "float_exact a = (a \<notin> \<int> \<or> \<bar>a\<bar> \<le> 2 ^ 53)"

fun cell_fits :: "dtype \<Rightarrow> cell \<Rightarrow> bool" where
  "cell_fits numeric x = (case x of NA \<Rightarrow> True | Num a \<Rightarrow> float_exact a | _ \<Rightarrow> False)"
| "cell_fits datetime64 x = (case x of NA \<Rightarrow> True | Date t \<Rightarrow> True | _ \<Rightarrow> False)"
| "cell_fits object x = True"

definition typed_series :: "series \<Rightarrow> bool" where
  "typed_series s = list_all (cell_fits (dtype s)) (cells s)"

definition typed :: "dataframe \<Rightarrow> bool" where
  "typed df =
     list_all (\<lambda>col. case getitem df col of Inl e \<Rightarrow> False | Inr s \<Rightarrow> typed_series s)
       (map fst (columns df))"

definition value_ok :: "cell \<Rightarrow> bool" where
  "value_ok v = (case v of NA \<Rightarrow> False | Num a \<Rightarrow> float_exact a | _ \<Rightarrow> True)"

text \<open>
  A selection can be evaluated on a frame when its value is a value, its column exists
  and is a column that pandas can hold, and, for a bound, the value can be ordered
  against the column.
\<close>

definition selection_ok :: "env \<Rightarrow> dataframe \<Rightarrow> string \<Rightarrow> cell \<Rightarrow> bool" where
  "selection_ok env df key v =
     (value_ok v
      \<and> (case getitem df (selection_col key) of
            Inl e \<Rightarrow> False
          | Inr s \<Rightarrow>
              typed_series s
              \<and> (selection_kind key = Equal \<or> ordering_ok s (coerce_scalar env (dtype s) v))))"

section \<open>Small frames for concrete runs\<close>

definition example_df :: dataframe where
  "example_df =
     \<lparr>columns = [(''Category'', object), (''Amount'', numeric)],
      rows = [[Str ''A'', Num 50], [Str ''A'', Num 150], [Str ''B'', Num 200], [Str ''A'', NA]],
      attrs_column_types = None,
      attrs_unique_values = None\<rparr>"

text \<open>A frame whose only column has a name that ends like a lower bound.\<close>

definition suffixed_df :: dataframe where
  "suffixed_df =
     \<lparr>columns = [(''x_min'', object)],
      rows = [[Str ''a''], [Str ''b'']],
      attrs_column_types = None,
      attrs_unique_values = None\<rparr>"

text \<open>
  A frame with the columns \<open>x\<close> and \<open>x_min\<close>, and a frame whose \<open>Created\<close> column is
  a datetime column.
\<close>

definition bound_df :: dataframe where
  "bound_df =
     \<lparr>columns = [(''c'', object), (''x'', numeric), (''x_min'', numeric)],
      rows = [[Str ''a'', Num 5, Num 3], [Str ''a'', Num 1, Num 3], [Str ''b'', Num 7, Num 3]],
      attrs_column_types = None,
      attrs_unique_values = None\<rparr>"

definition dated_df :: dataframe where
  "dated_df =
     \<lparr>columns = [(''Created'', datetime64)],
      rows = [[Date 1640995200], [Date 1703980800], [NA]],
      attrs_column_types = None,
      attrs_unique_values = None\<rparr>"

text \<open>A frame whose \<open>Order Date\<close> column mixes a timestamp and a text.\<close>

definition mixed_date_df :: dataframe where
  "mixed_date_df =
     \<lparr>columns = [(''Order Date'', object), (''Category'', object)],
      rows = [[Date 0, Str ''A''], [Str ''TBD'', Str ''B'']],
      attrs_column_types = None,
      attrs_unique_values = None\<rparr>"

section \<open>The specification's view of the classifier\<close>

text \<open>
  The specification gives the classifier as a function from a column to one of six
  kinds, or to nothing for a column without values.  \<open>classify\<close> follows its six
  rules in their order; \<open>cols_of_kind\<close> is the list of the frame's columns of one kind,
  in column order.
\<close>

datatype classification = Identifier | Numeric | Monetary | DateKind | Categorical | Text

definition classify :: "env \<Rightarrow> string \<Rightarrow> series \<Rightarrow> classification option" where
  "classify env col s =
     (if isna_all s then None
      else if name_has id_terms col then Some Identifier
      else if dtype s = numeric then
        (if name_has money_terms col then Some Monetary else Some Numeric)
      else if name_has date_terms col \<and> to_datetime_ok env s then Some DateKind
      else if nunique s \<le> 50
              \<or> ((of_nat (nunique s) :: rat) / of_nat (length (dropna (cells s))) \<le> 2 / 10
                  \<and> nunique s \<le> 100)
      then Some Categorical
      else Some Text)"

definition kind_of :: "env \<Rightarrow> dataframe \<Rightarrow> string \<Rightarrow> classification option" where
  "kind_of env df col =
     (case getitem df col of Inl e \<Rightarrow> None | Inr s \<Rightarrow> classify env col s)"

definition cols_of_kind :: "env \<Rightarrow> dataframe \<Rightarrow> classification \<Rightarrow> string list" where
  "cols_of_kind env df k = filter (\<lambda>col. kind_of env df col = Some k) (map fst (columns df))"

text \<open>What recording a classified column does to the lists of the loop.\<close>

definition add_col :: "string \<Rightarrow> series \<Rightarrow> classification option \<Rightarrow> type_lists \<Rightarrow> type_lists" where
  "add_col col s k acc =
     (case k of
        None \<Rightarrow> acc
      | Some Identifier \<Rightarrow> acc\<lparr>id_cols := id_cols acc @ [col]\<rparr>
      | Some Numeric \<Rightarrow> acc\<lparr>numeric_cols := numeric_cols acc @ [col]\<rparr>
      | Some Monetary \<Rightarrow> acc\<lparr>monetary_cols := monetary_cols acc @ [col]\<rparr>
      | Some DateKind \<Rightarrow> acc\<lparr>date_cols := date_cols acc @ [col]\<rparr>
      | Some Categorical \<Rightarrow>
          acc\<lparr>categorical_cols := categorical_cols acc @ [col],
              unique_vals := AList.update col (foldr insort_cell (unique (dropna (cells s))) [])
                               (unique_vals acc)\<rparr>
      | Some Text \<Rightarrow> acc\<lparr>text_cols := text_cols acc @ [col]\<rparr>)"

definition classify_step :: "env \<Rightarrow> dataframe \<Rightarrow> string \<Rightarrow> type_lists \<Rightarrow> type_lists" where
  "classify_step env df col acc =
     (case getitem df col of
        Inl e \<Rightarrow> acc
      | Inr s \<Rightarrow> add_col col s (classify env col s) acc)"

text \<open>
  The data model of the specification: every column holds values of one kind, next to
  missing cells.
\<close>

definition uniform_series :: "series \<Rightarrow> bool" where
  "uniform_series s =
     list_all (\<lambda>x. list_all (\<lambda>y. x = NA \<or> y = NA \<or> same_kind x y) (cells s)) (cells s)"

definition uniform :: "dataframe \<Rightarrow> bool" where
  "uniform df =
     list_all (\<lambda>col. case getitem df col of Inl e \<Rightarrow> False | Inr s \<Rightarrow> uniform_series s)
       (map fst (columns df))"

text \<open>
  The one place where the classifier can raise: \<open>sorted()\<close> on the distinct values of
  a column that the distinct-value rule takes as categorical, when they are not of one
  kind.
\<close>

definition unsortable :: "env \<Rightarrow> dataframe \<Rightarrow> string \<Rightarrow> bool" where
  "unsortable env df col =
     (case getitem df col of
        Inl e \<Rightarrow> False
      | Inr s \<Rightarrow> classify env col s = Some Categorical
                 \<and> \<not> sortable (unique (dropna (cells s))))"

definition sortable_categoricals :: "env \<Rightarrow> dataframe \<Rightarrow> bool" where
  "sortable_categoricals env df = list_all (\<lambda>col. \<not> unsortable env df col) (map fst (columns df))"

text \<open>The list that \<open>df.attrs['column_types']\<close> holds under a key, empty without it.\<close>

definition schema_list :: "dataframe \<Rightarrow> string \<Rightarrow> string list" where
  "schema_list df k = (case attrs_column_types df of None \<Rightarrow> [] | Some ct \<Rightarrow> dict_get ct k)"

text \<open>
  A frame of 200 rows: the texts of \<open>Region\<close> cycle through 50 values, the texts of
  \<open>Vendor\<close> through 51.
\<close>

definition threshold_df :: dataframe where
  "threshold_df =
     \<lparr>columns = [(''Region'', object), (''Vendor'', object)],
      rows = map (\<lambda>i. [Str (replicate (i mod 50) CHR ''r''), Str (replicate (i mod 51) CHR ''v'')])
               [0..<200],
      attrs_column_types = None,
      attrs_unique_values = None\<rparr>"


text \<open>A frame whose \<open>Order Date\<close> column holds a text that is not a date.\<close>

definition bad_date_df :: dataframe where
  "bad_date_df =
     \<lparr>columns = [(''Order Date'', object), (''Category'', object)],
      rows = [[Str ''soon'', Str ''A''], [Str ''2022-01-01'', Str ''B'']],
      attrs_column_types = None,
      attrs_unique_values = None\<rparr>"


section \<open>The specification's view of the synthesizer\<close>

text \<open>
  A categorical column is eligible when it is among the requested columns, its values
  can be obtained, and there are at most 100 of them.
\<close>

definition eligible_categorical ::
  "dataframe \<Rightarrow> string list option \<Rightarrow> cell list dict \<Rightarrow> string \<Rightarrow> bool" where
  "eligible_categorical data only uv col =
     (\<not> not_requested only col
      \<and> (case categorical_values data uv col of Inl e \<Rightarrow> False | Inr vals \<Rightarrow> length vals \<le> 100))"

text \<open>
  A frame with a schema: two categorical columns, one date column, one numeric column.
\<close>

definition schema_df :: dataframe where
  "schema_df =
     \<lparr>columns = [(''Region'', object), (''Status'', object), (''Created'', datetime64),
                 (''Score'', numeric)],
      rows = [[Str ''N'', Str ''open'', Date 0, Num 1],
              [Str ''S'', Str ''done'', Date 172800, Num 5]],
      attrs_column_types = Some [(''categorical'', [''Region'', ''Status'']),
                                 (''datetime'', [''Created'']),
                                 (''numeric'', [''Score''])],
      attrs_unique_values = Some [(''Region'', [Str ''N'', Str ''S''])]\<rparr>"


text \<open>The counter counts the controls, and stays within the budget.\<close>

definition within_budget :: "int \<Rightarrow> gen_state \<Rightarrow> bool" where
  "within_budget m st = (length (specs st) = filter_count st \<and> int (filter_count st) \<le> max 0 m)"


text \<open>
  The same frame with a third categorical column in its schema, \<open>Code\<close>, for which 101
  values are stored.
\<close>

definition wide_df :: dataframe where
  "wide_df =
     schema_df\<lparr>attrs_column_types := Some [(''categorical'', [''Code'', ''Region'', ''Status'']),
                                            (''datetime'', [''Created'']),
                                            (''numeric'', [''Score''])],
               attrs_unique_values := Some [(''Code'', map (\<lambda>i. Num (of_nat i)) [0..<101]),
                                            (''Region'', [Str ''N'', Str ''S''])]\<rparr>"


fun is_enum_choice :: "filter_spec \<Rightarrow> bool" where
  "is_enum_choice (EnumChoice col) = True"
| "is_enum_choice (DateRange col) = False"
| "is_enum_choice (NumericRange col) = False"


section \<open>Properties of the filter applier\<close>

lemma select_map: "map snd (filter fst (zip (map g xs) xs)) = filter g xs"
  by (induction xs) auto

lemma boolean_index_map:
  "boolean_index df (map g (rows df)) = df\<lparr>rows := filter g (rows df)\<rparr>"
  unfolding boolean_index_def by (simp only: select_map)

lemma endswith4: "length suf = 4 \<Longrightarrow>
    endswith key suf = (4 \<le> length key \<and> drop (length key - 4) key = suf)"
  by (simp add: endswith_def)

lemma endswith_start:
  "endswith key ''_start'' = (6 \<le> length key \<and> drop (length key - 6) key = ''_start'')"
  by (simp add: endswith_def eval_nat_numeral)

lemma suffix_min_max: "endswith key ''_min'' \<Longrightarrow> \<not> endswith key ''_max''"
  and suffix_min_end: "endswith key ''_min'' \<Longrightarrow> \<not> endswith key ''_end''"
  and suffix_max_end: "endswith key ''_max'' \<Longrightarrow> \<not> endswith key ''_end''"
  by (auto simp: endswith4)

lemma suffix_start_tail:
  assumes "endswith key ''_start''"
  shows "drop (length key - 4) key = ''tart''"
proof -
  from assms have len: "6 \<le> length key" and d: "drop (length key - 6) key = ''_start''"
    by (simp_all add: endswith_start)
  have e: "length key - 4 = 2 + (length key - 6)"
    using len by simp
  have "drop (length key - 4) key = drop 2 (drop (length key - 6) key)"
    by (simp only: e drop_drop)
  then show ?thesis using d by simp
qed

lemma suffix_start_others:
  assumes "endswith key ''_start''"
  shows "\<not> endswith key ''_min''" "\<not> endswith key ''_max''" "\<not> endswith key ''_end''"
  using suffix_start_tail [OF assms] by (auto simp: endswith4)

lemma selection_min:
  "endswith key ''_min'' \<Longrightarrow> selection_col key = drop_tail 4 key \<and> selection_kind key = AtLeast"
  by (simp add: selection_col_def selection_kind_def)

lemma selection_max:
  "endswith key ''_max'' \<Longrightarrow> selection_col key = drop_tail 4 key \<and> selection_kind key = AtMost"
  using suffix_min_max [of key] suffix_start_others(2) [of key]
  by (auto simp add: selection_col_def selection_kind_def)

lemma selection_start:
  "endswith key ''_start'' \<Longrightarrow> selection_col key = drop_tail 6 key \<and> selection_kind key = AtLeast"
  using suffix_start_others [of key]
  by (auto simp add: selection_col_def selection_kind_def)

lemma selection_end:
  "endswith key ''_end'' \<Longrightarrow> selection_col key = drop_tail 4 key \<and> selection_kind key = AtMost"
  using suffix_min_end [of key] suffix_start_others(3) [of key]
  by (auto simp add: selection_col_def selection_kind_def)

lemma selection_plain:
  "\<not> endswith key ''_min'' \<Longrightarrow> \<not> endswith key ''_max'' \<Longrightarrow> \<not> endswith key ''_start'' \<Longrightarrow>
   \<not> endswith key ''_end'' \<Longrightarrow> selection_col key = key \<and> selection_kind key = Equal"
  by (simp add: selection_col_def selection_kind_def)

lemma row_satisfies_fun:
  "col_index (selection_col key) cols = Some i \<Longrightarrow>
   row_satisfies env cols key v =
     (\<lambda>r. holds (selection_kind key) (cell_at r i) (coerce_scalar env (snd (cols ! i)) v))"
  by (rule ext) (simp add: row_satisfies_def)

lemma filter_step_char:
  "filter_step env fd key v =
     (case col_index (selection_col key) (columns fd) of
        None \<Rightarrow> Inl (KeyError (selection_col key))
      | Some i \<Rightarrow>
          if selection_kind key = Equal
             \<or> ordering_ok \<lparr>dtype = snd (columns fd ! i), cells = map (\<lambda>r. cell_at r i) (rows fd)\<rparr>
                   (coerce_scalar env (snd (columns fd ! i)) v)
          then Inr (fd\<lparr>rows := filter (row_satisfies env (columns fd) key v) (rows fd)\<rparr>)
          else Inl TypeError)"
proof (cases "col_index (selection_col key) (columns fd)")
  case None
  consider (mn) "endswith key ''_min''" | (mx) "endswith key ''_max''"
    | (st) "endswith key ''_start''" | (en) "endswith key ''_end''"
    | (eq) "\<not> endswith key ''_min''" "\<not> endswith key ''_max''"
           "\<not> endswith key ''_start''" "\<not> endswith key ''_end''"
    by blast
  then show ?thesis
  proof cases
    case mn
    with None selection_min [OF mn] show ?thesis
      by (simp add: filter_step_def getitem_def)
  next
    case mx
    with None selection_max [OF mx] suffix_min_max [of key] show ?thesis
      by (auto simp add: filter_step_def getitem_def)
  next
    case st
    with None selection_start [OF st] suffix_start_others [OF st] show ?thesis
      by (simp add: filter_step_def getitem_def)
  next
    case en
    with None selection_end [OF en] suffix_min_end [of key] suffix_max_end [of key]
      suffix_start_others(3) [of key] show ?thesis
      by (auto simp add: filter_step_def getitem_def)
  next
    case eq
    with None selection_plain [OF eq] show ?thesis
      by (simp add: filter_step_def getitem_def)
  qed
next
  case (Some i)
  note rs = row_satisfies_fun [OF Some, of env v]
  consider (mn) "endswith key ''_min''" | (mx) "endswith key ''_max''"
    | (st) "endswith key ''_start''" | (en) "endswith key ''_end''"
    | (eq) "\<not> endswith key ''_min''" "\<not> endswith key ''_max''"
           "\<not> endswith key ''_start''" "\<not> endswith key ''_end''"
    by blast
  then show ?thesis
  proof cases
    case mn
    with Some rs selection_min [OF mn] show ?thesis
      by (simp add: filter_step_def getitem_def series_ge_def boolean_index_def select_map o_def Let_def)
  next
    case mx
    with Some rs selection_max [OF mx] suffix_min_max [of key] show ?thesis
      by (auto simp add: filter_step_def getitem_def series_le_def boolean_index_def select_map o_def Let_def)
  next
    case st
    with Some rs selection_start [OF st] suffix_start_others [OF st] show ?thesis
      by (simp add: filter_step_def getitem_def series_ge_def boolean_index_def select_map o_def Let_def)
  next
    case en
    with Some rs selection_end [OF en] suffix_min_end [of key] suffix_max_end [of key]
      suffix_start_others(3) [of key] show ?thesis
      by (auto simp add: filter_step_def getitem_def series_le_def boolean_index_def select_map o_def Let_def)
  next
    case eq
    with Some rs selection_plain [OF eq] show ?thesis
      by (simp add: filter_step_def getitem_def series_eq_def boolean_index_def select_map o_def Let_def)
  qed
qed


lemma filter_step_columns: "filter_step env fd key v = Inr fd' \<Longrightarrow> columns fd' = columns fd"
  by (auto simp: filter_step_char split: option.splits if_splits)

lemma filter_loop_columns: "filter_loop env fd fs = Inr fd' \<Longrightarrow> columns fd' = columns fd"
proof (induction fs arbitrary: fd)
  case Nil
  then show ?case by simp
next
  case (Cons p fs)
  obtain key v where p: "p = (key, v)" by (cases p)
  from Cons.prems p obtain fd1 where s: "filter_step env fd key v = Inr fd1"
    and l: "filter_loop env fd1 fs = Inr fd'"
    by (auto split: sum.splits)
  from Cons.IH [OF l] filter_step_columns [OF s] show ?case by simp
qed

lemma filter_loop_append:
  "filter_loop env fd (pre @ post) =
     (case filter_loop env fd pre of Inl e \<Rightarrow> Inl e | Inr fd' \<Rightarrow> filter_loop env fd' post)"
  by (induction pre arbitrary: fd) (auto split: sum.splits)

lemma filter_step_ok:
  assumes ok: "selection_ok env df key v"
    and cols: "columns fd = columns df"
    and sub: "set (rows fd) \<subseteq> set (rows df)"
  shows "filter_step env fd key v =
           Inr (fd\<lparr>rows := filter (row_satisfies env (columns df) key v) (rows fd)\<rparr>)"
proof -
  from ok obtain i where i: "col_index (selection_col key) (columns df) = Some i"
    and t: "selection_kind key = Equal
            \<or> ordering_ok \<lparr>dtype = snd (columns df ! i),
                            cells = map (\<lambda>r. cell_at r i) (rows df)\<rparr>
                  (coerce_scalar env (snd (columns df ! i)) v)"
    by (auto simp: selection_ok_def getitem_def split: option.splits)
  have "selection_kind key = Equal
        \<or> ordering_ok \<lparr>dtype = snd (columns fd ! i),
                        cells = map (\<lambda>r. cell_at r i) (rows fd)\<rparr>
              (coerce_scalar env (snd (columns fd ! i)) v)"
    using t sub cols by (auto simp: ordering_ok_def)
  with i cols show ?thesis by (simp add: filter_step_char)
qed

lemma filter_loop_ok:
  assumes "\<forall>(key, v) \<in> set fs. selection_ok env df key v"
    and "columns fd = columns df"
    and "set (rows fd) \<subseteq> set (rows df)"
  shows "filter_loop env fd fs =
           Inr (fd\<lparr>rows := filter (\<lambda>r. \<forall>(key, v) \<in> set fs. row_satisfies env (columns df) key v r)
                                (rows fd)\<rparr>)"
  using assms
proof (induction fs arbitrary: fd)
  case Nil
  then show ?case by simp
next
  case (Cons p fs)
  obtain key v where p: "p = (key, v)" by (cases p)
  let ?fd1 = "fd\<lparr>rows := filter (row_satisfies env (columns df) key v) (rows fd)\<rparr>"
  have s: "filter_step env fd key v = Inr ?fd1"
    using Cons.prems p by (intro filter_step_ok) auto
  have "filter_loop env ?fd1 fs =
          Inr (?fd1\<lparr>rows := filter (\<lambda>r. \<forall>(key, v) \<in> set fs. row_satisfies env (columns df) key v r)
                                (rows ?fd1)\<rparr>)"
    using Cons.prems by (intro Cons.IH) auto
  with s p show ?case by (simp add: conj_commute)
qed

lemma apply_filters_ok:
  assumes "\<forall>(key, v) \<in> set fs. selection_ok env df key v"
  shows "apply_filters env (Some df) fs =
           Inr (Some (df\<lparr>rows := filter (\<lambda>r. \<forall>(key, v) \<in> set fs.
                                                  row_satisfies env (columns df) key v r)
                                      (rows df)\<rparr>))"
proof (cases "fs = [] \<or> empty df")
  case False
  with filter_loop_ok [OF assms, of df] show ?thesis
    by (simp add: apply_filters_def)
next
  case True
  then show ?thesis
  proof
    assume "fs = []"
    then show ?thesis by (simp add: apply_filters_def)
  next
    assume e: "empty df"
    show ?thesis
    proof (cases fs)
      case Nil
      then show ?thesis by (simp add: apply_filters_def)
    next
      case (Cons p ps)
      obtain key v where p: "p = (key, v)" by (cases p)
      from assms Cons p have "selection_ok env df key v" by simp
      then have "columns df \<noteq> []"
        by (auto simp: selection_ok_def getitem_def split: option.splits)
      with e have "rows df = []" by (simp add: empty_def)
      with e show ?thesis by (simp add: apply_filters_def)
    qed
  qed
qed

lemma apply_filters_nonempty:
  "\<not> empty df \<Longrightarrow> fs \<noteq> [] \<Longrightarrow>
   apply_filters env (Some df) fs = map_sum id Some (filter_loop env df fs)"
  by (simp add: apply_filters_def split: sum.splits)

lemma selection_col_shorter:
  assumes "endswith key ''_min'' \<or> endswith key ''_max'' \<or> endswith key ''_start''
           \<or> endswith key ''_end''"
  shows "length (selection_col key) < length key"
  using assms
  by (auto simp: selection_col_def drop_tail_def endswith4 endswith_start)

lemma float_exact_small: "float_exact 1" "float_exact 3" "float_exact 5" "float_exact 7"
  "float_exact 50" "float_exact 100" "float_exact 150" "float_exact 200"
  by (simp_all add: float_exact_def)

lemma selection_ok_example:
  "selection_ok default_env example_df ''Category'' (Str ''A'')"
  "selection_ok default_env example_df ''Amount_min'' (Num 100)"
  by (simp_all add: selection_ok_def selection_col_def selection_kind_def endswith_def
      drop_tail_def getitem_def example_df_def ordering_ok_def cmp_ok_def cell_at_def
      value_ok_def typed_series_def coerce_scalar_def float_exact_small)

lemma selection_ok_dated:
  "selection_ok default_env dated_df ''Created'' (Str ''2022-01-01'')"
  "selection_ok default_env dated_df ''Created_start'' (Str ''2023-12-31'')"
  by (simp_all add: selection_ok_def selection_col_def selection_kind_def endswith_def
      drop_tail_def getitem_def dated_df_def ordering_ok_def cmp_ok_def cell_at_def
      value_ok_def typed_series_def coerce_scalar_def default_env_def)

text \<open>
  Runs on the datetime column: a date text is parsed and compared as a timestamp, in an
  equality and in a bound; a text that does not parse matches nothing in an equality and
  is refused as a bound, as is the missing marker.
\<close>

lemma dated_runs:
  "apply_filters default_env (Some dated_df) [(''Created'', Str ''2022-01-01'')]
     = Inr (Some (dated_df\<lparr>rows := [[Date 1640995200]]\<rparr>))"
  "apply_filters default_env (Some dated_df) [(''Created_start'', Str ''2023-12-31'')]
     = Inr (Some (dated_df\<lparr>rows := [[Date 1703980800]]\<rparr>))"
  "apply_filters default_env (Some dated_df) [(''Created'', Str ''soon'')]
     = Inr (Some (dated_df\<lparr>rows := []\<rparr>))"
  "apply_filters default_env (Some dated_df) [(''Created_end'', Str ''soon'')] = Inl TypeError"
  "apply_filters default_env (Some dated_df) [(''Created_end'', NA)] = Inl TypeError"
  by (simp_all add: apply_filters_def dated_df_def empty_def filter_step_def endswith_def
      drop_tail_def getitem_def series_eq_def series_ge_def series_le_def ordering_ok_def
      cmp_ok_def coerce_scalar_def default_env_def boolean_index_def cell_at_def Let_def)

text \<open>
  The instance of the conjunction that the specification names, for every frame with
  the two columns: \<open>Category\<close> not a datetime column, \<open>Amount\<close> a column that the bound
  100 can be ordered against.
\<close>

lemma apply_filters_category_amount:
  assumes c: "col_index ''Category'' (columns df) = Some i"
    and a: "col_index ''Amount'' (columns df) = Some j"
    and k: "snd (columns df ! i) \<noteq> datetime64"
    and ok1: "selection_ok env df ''Category'' (Str ''A'')"
    and ok2: "selection_ok env df ''Amount_min'' (Num 100)"
  shows "apply_filters env (Some df) [(''Category'', Str ''A''), (''Amount_min'', Num 100)] =
           Inr (Some (df\<lparr>rows := filter (\<lambda>r. cell_at r i = Str ''A''
                                               \<and> cell_le (Num 100) (cell_at r j)) (rows df)\<rparr>))"
proof -
  have sc: "selection_col ''Category'' = ''Category''" "selection_kind ''Category'' = Equal"
    "selection_col ''Amount_min'' = ''Amount''" "selection_kind ''Amount_min'' = AtLeast"
    by (simp_all add: selection_col_def selection_kind_def endswith_def drop_tail_def)
  have ok: "\<forall>(key, v) \<in> set [(''Category'', Str ''A''), (''Amount_min'', Num 100)].
              selection_ok env df key v"
    using ok1 ok2 by simp
  have "(\<lambda>r. \<forall>(key, v) \<in> set [(''Category'', Str ''A''), (''Amount_min'', Num 100)].
               row_satisfies env (columns df) key v r)
        = (\<lambda>r. cell_at r i = Str ''A'' \<and> cell_le (Num 100) (cell_at r j))"
    using c a k by (auto simp add: row_satisfies_def sc fun_eq_iff coerce_scalar_def)
  with apply_filters_ok [OF ok] show ?thesis by simp
qed

lemma filter_loop_obj_frame:
  "fd < length h \<Longrightarrow> filter_loop_obj env h fd fs = Inr (h', res) \<Longrightarrow>
     take (length h) h' = h \<and> res < length h' \<and> (fs \<noteq> [] \<longrightarrow> length h \<le> res)
     \<and> filter_loop env (h ! fd) fs = Inr (h' ! res)"
proof (induction fs arbitrary: h fd)
  case Nil
  then show ?case by auto
next
  case (Cons p fs)
  obtain key v where p: "p = (key, v)" by (cases p)
  from Cons.prems p obtain df where s: "filter_step env (h ! fd) key v = Inr df"
    and l: "filter_loop_obj env (h @ [df]) (length h) fs = Inr (h', res)"
    by (auto simp: alloc_def split: sum.splits)
  have "length h < length (h @ [df])" by simp
  from Cons.IH [OF this l]
  have t: "take (length (h @ [df])) h' = h @ [df]" and r: "res < length h'"
    and f: "filter_loop env ((h @ [df]) ! length h) fs = Inr (h' ! res)"
    and g: "fs \<noteq> [] \<longrightarrow> length (h @ [df]) \<le> res"
    by auto
  have "take (length h) h' = take (length h) (take (length (h @ [df])) h')"
    by (simp add: min_def)
  also have "\<dots> = h" by (simp only: t) simp
  finally have t': "take (length h) h' = h" .
  have m: "length h \<le> res"
  proof (cases fs)
    case Nil
    with l show ?thesis by simp
  next
    case (Cons a list)
    with g show ?thesis by simp
  qed
  from s f p t' r m show ?case by simp
qed

lemma detect_ex: "detect_column_types default_env example_df =
  Inr (example_df\<lparr>attrs_column_types := Some [(''numeric'', []), (''date'', []),
       (''monetary'', [''Amount'']), (''categorical'', [''Category'']), (''id'', []), (''text'', [])],
     attrs_unique_values := Some [(''Category'', [Str ''A'', Str ''B''])]\<rparr>)"
  by (simp add: detect_column_types_def detect_step_def getitem_def example_df_def isna_all_def
      name_has_def id_terms_def money_terms_def date_terms_def lower_def lower_char_def cell_at_def
      nunique_def unique_def dropna_def looks_categorical_def py_sorted_def sortable_def
      no_types_def default_env_def to_datetime_ok_def)

lemma detect_column_types_frame:
  "detect_column_types env df = Inr df' \<Longrightarrow> columns df' = columns df \<and> rows df' = rows df"
  by (auto simp: detect_column_types_def split: sum.splits)

lemma detect_column_types_obj_frame:
  assumes "r < length h" and "detect_column_types_obj env h r = Inr h1"
  shows "length h1 = length h \<and> columns (h1 ! r) = columns (h ! r) \<and> rows (h1 ! r) = rows (h ! r)
         \<and> (\<forall>q < length h. q \<noteq> r \<longrightarrow> h1 ! q = h ! q)"
proof -
  from assms(2) obtain df where d: "detect_column_types env (h ! r) = Inr df"
    and h1: "h1 = h[r := df]"
    by (auto simp: detect_column_types_obj_def split: sum.splits)
  from detect_column_types_frame [OF d] h1 assms(1) show ?thesis by simp
qed

lemma apply_filters_obj_frame:
  assumes "r < length h" and "apply_filters_obj env h (Some r) fs = Inr (h2, res)"
  shows "take (length h) h2 = h
         \<and> (fs \<noteq> [] \<and> \<not> empty (h ! r) \<longrightarrow> (\<exists>q. res = Some q \<and> length h \<le> q \<and> q < length h2))
         \<and> apply_filters env (Some (h ! r)) fs = Inr (map_option (\<lambda>q. h2 ! q) res)"
proof (cases "fs = [] \<or> empty (h ! r)")
  case True
  with assms show ?thesis by (auto simp: apply_filters_obj_def apply_filters_def)
next
  case False
  with assms(2) obtain q where l: "filter_loop_obj env (h @ [h ! r]) (length h) fs = Inr (h2, q)"
    and res: "res = Some q"
    by (auto simp: apply_filters_obj_def alloc_def split: sum.splits)
  have "length h < length (h @ [h ! r])" by simp
  from filter_loop_obj_frame [OF this l] False
  have t: "take (length (h @ [h ! r])) h2 = h @ [h ! r]" and q: "q < length h2"
    and m: "length (h @ [h ! r]) \<le> q"
    and f: "filter_loop env ((h @ [h ! r]) ! length h) fs = Inr (h2 ! q)"
    by auto
  have "take (length h) h2 = take (length h) (take (length (h @ [h ! r])) h2)"
    by (simp add: min_def)
  also have "\<dots> = h" by (simp only: t) simp
  finally have t': "take (length h) h2 = h" .
  from f False res t' q m show ?thesis by (simp add: apply_filters_def)
qed

lemma apply_obj_ex:
  "apply_filters_obj default_env [suffixed_df, example_df] (Some 1) [(''Category'', Str ''B'')] =
     Inr ([suffixed_df, example_df, example_df,
           example_df\<lparr>rows := [[Str ''B'', Num 200]]\<rparr>], Some 3)"
  by (simp add: apply_filters_obj_def alloc_def example_df_def empty_def filter_step_def
      endswith_def getitem_def series_eq_def boolean_index_def cell_at_def coerce_scalar_def
      Let_def)

lemma detect_obj_ex:
  "detect_column_types_obj default_env [suffixed_df, example_df] 1 =
     Inr [suffixed_df,
          example_df\<lparr>attrs_column_types := Some [(''numeric'', []), (''date'', []),
              (''monetary'', [''Amount'']), (''categorical'', [''Category'']), (''id'', []),
              (''text'', [])],
            attrs_unique_values := Some [(''Category'', [Str ''A'', Str ''B''])]\<rparr>]"
  by (simp add: detect_column_types_obj_def detect_ex)

lemma bound_run:
  "apply_filters default_env (Some bound_df) ([(''c'', Str ''a'')] @ (''x_min'', Num 3) # [])
     = Inr (Some (bound_df\<lparr>rows := [[Str ''a'', Num 5, Num 3]]\<rparr>))"
  by (simp add: apply_filters_def bound_df_def empty_def filter_step_def endswith_def
      drop_tail_def getitem_def series_eq_def series_ge_def ordering_ok_def cmp_ok_def
      coerce_scalar_def boolean_index_def cell_at_def Let_def)

lemma typed_examples: "typed suffixed_df" "typed bound_df"
  by (simp_all add: typed_def typed_series_def getitem_def suffixed_df_def bound_df_def
      cell_at_def float_exact_small)

subsection \<open>Claims about the filter applier\<close>

text \<open>
  C1, as stated, fails.  The claim says that a selection on a column that the dataset
  does not have is skipped.  On a frame with the columns \<open>Category\<close> and \<open>Amount\<close>, the
  selections \<open>Region = X\<close> and \<open>Category = A\<close> raise \<open>KeyError\<close> for \<open>Region\<close>, while
  the remaining selection alone returns the three rows of category \<open>A\<close>.
\<close>

theorem missing_column_not_skipped:
  "apply_filters default_env (Some example_df)
       [(''Region'', Str ''X''), (''Category'', Str ''A'')]
     = Inl (KeyError ''Region'')
   \<and> apply_filters default_env (Some example_df) [(''Category'', Str ''A'')]
     = Inr (Some (example_df\<lparr>rows := [[Str ''A'', Num 50], [Str ''A'', Num 150], [Str ''A'', NA]]\<rparr>))"
  by (simp add: apply_filters_def example_df_def empty_def filter_step_def endswith_def getitem_def
      series_eq_def boolean_index_def cell_at_def coerce_scalar_def Let_def)

text \<open>
  C1, amended: on a dataset that is not empty, a selection whose key, without its
  suffix, names a column that the dataset does not have makes \<open>apply_filters\<close> raise:
  when the selections before it apply, the error is the \<open>KeyError\<close> for that column,
  otherwise it is the error of the earlier selection.  Nothing is skipped.
\<close>

theorem missing_column_raises:
  assumes "\<not> empty df" and "col_index (selection_col key) (columns df) = None"
  shows "apply_filters env (Some df) (pre @ (key, v) # post) =
           (case filter_loop env df pre of
              Inl e \<Rightarrow> Inl e
            | Inr fd \<Rightarrow> Inl (KeyError (selection_col key)))"
proof (cases "filter_loop env df pre")
  case (Inl e)
  with assms show ?thesis by (simp add: apply_filters_def filter_loop_append)
next
  case (Inr fd)
  then have "columns fd = columns df" by (rule filter_loop_columns)
  with assms have "filter_step env fd key v = Inl (KeyError (selection_col key))"
    by (simp add: filter_step_char)
  with Inr assms show ?thesis by (simp add: apply_filters_def filter_loop_append)
qed

text \<open>
  Witness for C1 (amended): after the selection \<open>Category = A\<close>, the bound
  \<open>Region_min\<close> on the missing column \<open>Region\<close> raises \<open>KeyError\<close>.
\<close>

theorem missing_column_raises_witness:
  "\<not> empty example_df
   \<and> col_index (selection_col ''Region_min'') (columns example_df) = None
   \<and> apply_filters default_env (Some example_df)
        ([(''Category'', Str ''A'')] @ (''Region_min'', Num 1) # [(''Amount_max'', Num 7)])
      = Inl (KeyError ''Region'')"
proof -
  have e: "\<not> empty example_df"
    by (simp add: empty_def example_df_def)
  have c: "col_index (selection_col ''Region_min'') (columns example_df) = None"
    by (simp add: selection_col_def endswith_def drop_tail_def example_df_def)
  have s: "selection_col ''Region_min'' = ''Region''"
    by (simp add: selection_col_def endswith_def drop_tail_def)
  have l: "filter_loop default_env example_df [(''Category'', Str ''A'')] =
             Inr (example_df\<lparr>rows := [[Str ''A'', Num 50], [Str ''A'', Num 150], [Str ''A'', NA]]\<rparr>)"
    by (simp add: example_df_def filter_step_def endswith_def getitem_def
        series_eq_def boolean_index_def cell_at_def coerce_scalar_def Let_def)
  from missing_column_raises [OF e c, of default_env "[(''Category'', Str ''A'')]" "Num 1"
      "[(''Amount_max'', Num 7)]"] e c
  show ?thesis by (simp only: l s sum.case) simp
qed

text \<open>
  C6: all selections combine by conjunction.  When every selection can be evaluated
  (its value is a value, its column exists, and a bound can be ordered against the
  column), \<open>apply_filters\<close> returns exactly the rows that satisfy every selection:
  equality for a plain key, at least the value for \<open>_min\<close> and \<open>_start\<close>, at most the
  value for \<open>_max\<close> and \<open>_end\<close>, on the column named without the suffix.
\<close>

theorem apply_filters_conjunction:
  assumes "\<forall>(key, v) \<in> set fs. selection_ok env df key v"
  shows "apply_filters env (Some df) fs =
           Inr (Some (df\<lparr>rows := filter (\<lambda>r. \<forall>(key, v) \<in> set fs.
                                                  row_satisfies env (columns df) key v r)
                                      (rows df)\<rparr>))"
  using assms by (rule apply_filters_ok)

text \<open>
  Witness for C6: the selections \<open>Category = A\<close> and \<open>Amount_min = 100\<close> keep the one
  row of category \<open>A\<close> whose amount is at least 100 (a missing amount is not); on the
  datetime column the selection of a date text keeps the row of that date.
\<close>

theorem apply_filters_conjunction_witness:
  "selection_ok default_env example_df ''Category'' (Str ''A'')
   \<and> selection_ok default_env example_df ''Amount_min'' (Num 100)
   \<and> apply_filters default_env (Some example_df)
        [(''Category'', Str ''A''), (''Amount_min'', Num 100)] =
       Inr (Some (example_df\<lparr>rows := [[Str ''A'', Num 150]]\<rparr>))
   \<and> selection_ok default_env dated_df ''Created'' (Str ''2022-01-01'')
   \<and> apply_filters default_env (Some dated_df) [(''Created'', Str ''2022-01-01'')] =
       Inr (Some (dated_df\<lparr>rows := [[Date 1640995200]]\<rparr>))"
proof -
  have ok: "\<forall>(key, v) \<in> set [(''Category'', Str ''A''), (''Amount_min'', Num 100)].
              selection_ok default_env example_df key v"
    using selection_ok_example by simp
  have okd: "\<forall>(key, v) \<in> set [(''Created'', Str ''2022-01-01'')].
              selection_ok default_env dated_df key v"
    using selection_ok_dated by simp
  have "filter (\<lambda>r. \<forall>(key, v) \<in> set [(''Category'', Str ''A''), (''Amount_min'', Num 100)].
                  row_satisfies default_env (columns example_df) key v r) (rows example_df)
        = [[Str ''A'', Num 150]]"
    by (simp add: row_satisfies_def selection_col_def selection_kind_def endswith_def
        drop_tail_def example_df_def cell_at_def coerce_scalar_def)
  moreover have "filter (\<lambda>r. \<forall>(key, v) \<in> set [(''Created'', Str ''2022-01-01'')].
                  row_satisfies default_env (columns dated_df) key v r) (rows dated_df)
        = [[Date 1640995200]]"
    by (simp add: row_satisfies_def selection_col_def selection_kind_def endswith_def
        drop_tail_def dated_df_def cell_at_def coerce_scalar_def default_env_def)
  ultimately show ?thesis
    using apply_filters_conjunction [OF ok] apply_filters_conjunction [OF okd]
      selection_ok_example selection_ok_dated(1)
    by simp
qed

text \<open>
  C10: in every selection map, a selection whose key ends in \<open>_min\<close>, \<open>_max\<close>,
  \<open>_start\<close> or \<open>_end\<close> is a bound on the column named by the key without the suffix,
  which is a shorter name than the key.  Wherever the selection stands in the map, when
  the selections before it apply: a missing such column is a \<open>KeyError\<close> whether or not
  a column named like the key exists; a value that cannot be ordered against the column
  is a \<open>TypeError\<close>; otherwise the rows are kept by the ordering comparison, never by
  equality, and the remaining selections go on from there.  The frame is one that
  pandas can hold and the chosen values are values.
\<close>

theorem suffixed_key_is_range_bound:
  assumes suf: "endswith key ''_min'' \<or> endswith key ''_max'' \<or> endswith key ''_start''
           \<or> endswith key ''_end''"
    and ne: "\<not> empty df"
    and ty: "typed df"
    and vals: "\<forall>(k, w) \<in> set (pre @ (key, v) # post). value_ok w"
  shows "length (selection_col key) < length key
       \<and> apply_filters env (Some df) (pre @ (key, v) # post) =
           (case filter_loop env df pre of
              Inl e \<Rightarrow> Inl e
            | Inr fd \<Rightarrow>
                (case col_index (selection_col key) (columns df) of
                   None \<Rightarrow> Inl (KeyError (selection_col key))
                 | Some i \<Rightarrow>
                     if ordering_ok \<lparr>dtype = snd (columns df ! i),
                                     cells = map (\<lambda>r. cell_at r i) (rows fd)\<rparr>
                          (coerce_scalar env (snd (columns df ! i)) v)
                     then map_sum id Some
                            (filter_loop env
                               (fd\<lparr>rows :=
                                   filter (\<lambda>r. if endswith key ''_min'' \<or> endswith key ''_start''
                                               then cell_le (coerce_scalar env (snd (columns df ! i)) v)
                                                      (cell_at r i)
                                               else cell_le (cell_at r i)
                                                      (coerce_scalar env (snd (columns df ! i)) v))
                                     (rows fd)\<rparr>)
                               post)
                     else Inl TypeError))"
proof -
  from suf have k: "selection_kind key \<noteq> Equal"
    by (auto simp: selection_kind_def)
  have h: "holds (selection_kind key) x w =
        (if endswith key ''_min'' \<or> endswith key ''_start'' then cell_le w x else cell_le x w)"
    for x w
    using suf by (auto simp: selection_kind_def)
  have a: "apply_filters env (Some df) (pre @ (key, v) # post)
             = map_sum id Some (filter_loop env df (pre @ (key, v) # post))"
    using ne by (intro apply_filters_nonempty) simp_all
  have "map_sum id Some (filter_loop env df (pre @ (key, v) # post)) =
           (case filter_loop env df pre of
              Inl e \<Rightarrow> Inl e
            | Inr fd \<Rightarrow>
                (case col_index (selection_col key) (columns df) of
                   None \<Rightarrow> Inl (KeyError (selection_col key))
                 | Some i \<Rightarrow>
                     if ordering_ok \<lparr>dtype = snd (columns df ! i),
                                     cells = map (\<lambda>r. cell_at r i) (rows fd)\<rparr>
                          (coerce_scalar env (snd (columns df ! i)) v)
                     then map_sum id Some
                            (filter_loop env
                               (fd\<lparr>rows :=
                                   filter (\<lambda>r. if endswith key ''_min'' \<or> endswith key ''_start''
                                               then cell_le (coerce_scalar env (snd (columns df ! i)) v)
                                                      (cell_at r i)
                                               else cell_le (cell_at r i)
                                                      (coerce_scalar env (snd (columns df ! i)) v))
                                     (rows fd)\<rparr>)
                               post)
                     else Inl TypeError))"
  proof (cases "filter_loop env df pre")
    case (Inl e)
    then show ?thesis by (simp add: filter_loop_append)
  next
    case (Inr fd)
    then have c: "columns fd = columns df" by (rule filter_loop_columns)
    show ?thesis
    proof (cases "col_index (selection_col key) (columns df)")
      case None
      with Inr c show ?thesis by (simp add: filter_loop_append filter_step_char)
    next
      case (Some i)
      from Inr Some c k show ?thesis
        by (simp add: filter_loop_append filter_step_char row_satisfies_fun [OF Some] h)
    qed
  qed
  with a selection_col_shorter [OF suf] show ?thesis by simp
qed

text \<open>
  Witness for C10: the frame \<open>suffixed_df\<close> has a column named \<open>x_min\<close> and none named
  \<open>x\<close>, and the selection \<open>x_min = a\<close> raises \<open>KeyError\<close> for \<open>x\<close>; the frame
  \<open>bound_df\<close> has both columns, and after \<open>c = a\<close> the selection \<open>x_min = 3\<close> keeps the
  one row with \<open>x\<close> at least 3, although both rows have 3 in the column \<open>x_min\<close>.
\<close>

theorem suffixed_key_is_range_bound_witness:
  "(endswith ''x_min'' ''_min'' \<or> endswith ''x_min'' ''_max'' \<or> endswith ''x_min'' ''_start''
      \<or> endswith ''x_min'' ''_end'')
   \<and> \<not> empty suffixed_df \<and> typed suffixed_df \<and> value_ok (Str ''a'')
   \<and> col_index ''x_min'' (columns suffixed_df) = Some 0
   \<and> apply_filters default_env (Some suffixed_df) ([] @ (''x_min'', Str ''a'') # [])
       = Inl (KeyError ''x'')
   \<and> \<not> empty bound_df \<and> typed bound_df \<and> value_ok (Num 3)
   \<and> col_index ''x_min'' (columns bound_df) = Some 2
   \<and> apply_filters default_env (Some bound_df) ([(''c'', Str ''a'')] @ (''x_min'', Num 3) # [])
       = Inr (Some (bound_df\<lparr>rows := [[Str ''a'', Num 5, Num 3]]\<rparr>))"
proof -
  have a: "endswith ''x_min'' ''_min'' \<or> endswith ''x_min'' ''_max''
           \<or> endswith ''x_min'' ''_start'' \<or> endswith ''x_min'' ''_end''"
    by (simp add: endswith_def)
  have e: "\<not> empty suffixed_df" "\<not> empty bound_df"
    by (simp_all add: empty_def suffixed_df_def bound_df_def)
  have s: "selection_col ''x_min'' = ''x''"
    by (simp add: selection_col_def endswith_def drop_tail_def)
  have c: "col_index ''x'' (columns suffixed_df) = None"
    "col_index ''x_min'' (columns suffixed_df) = Some 0"
    "col_index ''x_min'' (columns bound_df) = Some 2"
    by (simp_all add: suffixed_df_def bound_df_def)
  have v: "value_ok (Str ''a'')" "value_ok (Num 3)"
    by (simp_all add: value_ok_def float_exact_small)
  have v1: "\<forall>(k, w) \<in> set ([] @ (''x_min'', Str ''a'') # []). value_ok w"
    and v2: "\<forall>(k, w) \<in> set ([(''c'', Str ''a'')] @ (''x_min'', Num 3) # []). value_ok w"
    using v by simp_all
  from suffixed_key_is_range_bound [OF a e(1) typed_examples(1) v1, of default_env]
  have r1: "apply_filters default_env (Some suffixed_df) ([] @ (''x_min'', Str ''a'') # [])
          = Inl (KeyError ''x'')"
    using c by (simp add: s)
  from suffixed_key_is_range_bound [OF a e(2) typed_examples(2) v2, of default_env]
  have r2: "apply_filters default_env (Some bound_df)
              ([(''c'', Str ''a'')] @ (''x_min'', Num 3) # [])
          = Inr (Some (bound_df\<lparr>rows := [[Str ''a'', Num 5, Num 3]]\<rparr>))"
    by (simp only: bound_run)
  from r1 r2 a e c v typed_examples show ?thesis by simp
qed

text \<open>
  C5: the input dataset is left as it was.  \<open>detect_column_types\<close> writes only the
  attrs of the frame behind the reference: its columns and rows, and every other frame
  of the store, stay the same.  \<open>apply_filters\<close> changes no frame of the store; when
  there is something to filter, its result is a frame allocated by the call, and it
  holds the value that \<open>apply_filters\<close> computes.
\<close>

theorem input_dataset_unchanged:
  assumes "r < length h"
  shows "(detect_column_types_obj env h r = Inr h1 \<longrightarrow>
            length h1 = length h \<and> columns (h1 ! r) = columns (h ! r)
            \<and> rows (h1 ! r) = rows (h ! r) \<and> (\<forall>q < length h. q \<noteq> r \<longrightarrow> h1 ! q = h ! q))
       \<and> (apply_filters_obj env h (Some r) fs = Inr (h2, res) \<longrightarrow>
            take (length h) h2 = h
            \<and> (fs \<noteq> [] \<and> \<not> empty (h ! r) \<longrightarrow>
                 (\<exists>q. res = Some q \<and> length h \<le> q \<and> q < length h2))
            \<and> apply_filters env (Some (h ! r)) fs = Inr (map_option (\<lambda>q. h2 ! q) res))"
  using detect_column_types_obj_frame [OF assms] apply_filters_obj_frame [OF assms]
  by blast

text \<open>
  Witness for C5: a store of two frames; the classifier and the applier run on the
  second one.
\<close>

theorem input_dataset_unchanged_witness:
  "1 < length [suffixed_df, example_df]
   \<and> detect_column_types_obj default_env [suffixed_df, example_df] 1 =
       Inr [suffixed_df,
            example_df\<lparr>attrs_column_types := Some [(''numeric'', []), (''date'', []),
                (''monetary'', [''Amount'']), (''categorical'', [''Category'']), (''id'', []),
                (''text'', [])],
              attrs_unique_values := Some [(''Category'', [Str ''A'', Str ''B''])]\<rparr>]
   \<and> apply_filters_obj default_env [suffixed_df, example_df] (Some 1) [(''Category'', Str ''B'')] =
       Inr ([suffixed_df, example_df, example_df,
             example_df\<lparr>rows := [[Str ''B'', Num 200]]\<rparr>], Some 3)
   \<and> apply_filters default_env (Some example_df) [(''Category'', Str ''B'')] =
       Inr (Some (example_df\<lparr>rows := [[Str ''B'', Num 200]]\<rparr>))"
proof -
  have r: "1 < length [suffixed_df, example_df]" by simp
  from input_dataset_unchanged [OF r, of default_env _ "[(''Category'', Str ''B'')]" _ "Some 3"]
    detect_obj_ex apply_obj_ex
  show ?thesis by simp
qed

section \<open>Properties of the column classifier\<close>

lemma set_unique: "set (unique xs) = set xs"
  by (simp add: unique_def)

lemma length_unique: "length (unique xs) = card (set xs)"
  by (simp add: unique_def length_remdups_card_conv)

lemma uniform_sortable:
  assumes "uniform_series s"
  shows "sortable (unique (dropna (cells s)))"
proof (cases "unique (dropna (cells s))")
  case Nil
  then show ?thesis by (simp add: sortable_def)
next
  case (Cons x xs)
  have sub: "set (unique (dropna (cells s))) \<subseteq> set (cells s) - {NA}"
    by (auto simp: set_unique dropna_def)
  have "same_kind x y" if "y \<in> set (unique (dropna (cells s)))" for y
  proof -
    from Cons have "x \<in> set (unique (dropna (cells s)))" by simp
    with sub that have "x \<in> set (cells s)" "y \<in> set (cells s)" "x \<noteq> NA" "y \<noteq> NA" by auto
    with assms show ?thesis by (auto simp: uniform_series_def list_all_iff)
  qed
  then show ?thesis using Cons by (auto simp: sortable_def list_all_iff)
qed

lemma looks_categorical_eq:
  "n_unique \<le> n_total \<Longrightarrow>
   looks_categorical n_unique n_total =
     Inr (n_unique \<le> 50 \<or> ((of_nat n_unique :: rat) / of_nat n_total \<le> 2 / 10 \<and> n_unique \<le> 100))"
  by (auto simp: looks_categorical_def)

lemma nunique_le: "nunique s \<le> length (dropna (cells s))"
  by (simp add: nunique_def unique_def) (metis length_remdups_leq length_rev)

lemma getitem_column:
  "col \<in> set (map fst cs) \<Longrightarrow> \<exists>i. col_index col cs = Some i"
  by (induction cs) force+

lemma getitem_own: "col \<in> set (map fst (columns df)) \<Longrightarrow> \<exists>s. getitem df col = Inr s"
  using getitem_column [of col "columns df"] by (auto simp: getitem_def)

lemma detect_step_sortable:
  assumes g: "getitem df col = Inr s" and u: "\<not> unsortable env df col"
  shows "detect_step env df col acc = Inr (add_col col s (classify env col s) acc)"
proof (cases "classify env col s = Some Categorical")
  case True
  with g u have "sortable (unique (dropna (cells s)))" by (simp add: unsortable_def)
  with g nunique_le [of s] show ?thesis
    by (auto simp: detect_step_def classify_def add_col_def looks_categorical_eq py_sorted_def)
next
  case False
  with g nunique_le [of s] show ?thesis
    by (auto simp: detect_step_def classify_def add_col_def looks_categorical_eq py_sorted_def
        split: if_splits)
qed

lemma detect_step_unsortable:
  assumes g: "getitem df col = Inr s" and u: "unsortable env df col"
  shows "detect_step env df col acc = Inl TypeError"
proof -
  from g u have c: "classify env col s = Some Categorical"
    and n: "\<not> sortable (unique (dropna (cells s)))"
    by (simp_all add: unsortable_def)
  from c g n nunique_le [of s] show ?thesis
    by (auto simp: detect_step_def classify_def looks_categorical_eq py_sorted_def
        split: if_splits)
qed

lemma detect_loop_fold:
  assumes "set cols \<subseteq> set (map fst (columns df))"
    and "\<forall>col \<in> set cols. \<not> unsortable env df col"
  shows "detect_loop env df cols acc = Inr (fold (classify_step env df) cols acc)"
  using assms
proof (induction cols arbitrary: acc)
  case Nil
  then show ?case by simp
next
  case (Cons col cols)
  from Cons.prems getitem_own [of col df] obtain s where g: "getitem df col = Inr s"
    by auto
  from Cons.prems have u: "\<not> unsortable env df col" by simp
  from Cons.prems have "set cols \<subseteq> set (map fst (columns df))"
    "\<forall>c \<in> set cols. \<not> unsortable env df c"
    by simp_all
  from Cons.IH [OF this] detect_step_sortable [OF g u] g show ?case
    by (simp add: classify_step_def)
qed

lemma detect_loop_raises:
  assumes "set cols \<subseteq> set (map fst (columns df))"
    and "\<exists>col \<in> set cols. unsortable env df col"
  shows "detect_loop env df cols acc = Inl TypeError"
  using assms
proof (induction cols arbitrary: acc)
  case Nil
  then show ?case by simp
next
  case (Cons col cols)
  from Cons.prems getitem_own [of col df] obtain s where g: "getitem df col = Inr s"
    by auto
  show ?case
  proof (cases "unsortable env df col")
    case True
    from detect_step_unsortable [OF g True] show ?thesis by simp
  next
    case False
    with Cons.prems have "set cols \<subseteq> set (map fst (columns df))"
      "\<exists>c \<in> set cols. unsortable env df c"
      by auto
    from Cons.IH [OF this] detect_step_sortable [OF g False] show ?thesis by simp
  qed
qed

lemma uniform_sortable_categoricals:
  assumes "uniform df"
  shows "sortable_categoricals env df"
proof -
  have "\<not> unsortable env df col" if "col \<in> set (map fst (columns df))" for col
  proof (cases "getitem df col")
    case (Inl e)
    then show ?thesis by (simp add: unsortable_def)
  next
    case (Inr s)
    with assms that have "uniform_series s"
      by (auto simp: uniform_def list_all_iff)
    from uniform_sortable [OF this] Inr show ?thesis by (simp add: unsortable_def)
  qed
  then show ?thesis by (simp add: sortable_categoricals_def list_all_iff)
qed

lemma classify_step_lists:
  "numeric_cols (classify_step env df col acc) =
     numeric_cols acc @ (if kind_of env df col = Some Numeric then [col] else [])"
  "date_cols (classify_step env df col acc) =
     date_cols acc @ (if kind_of env df col = Some DateKind then [col] else [])"
  "monetary_cols (classify_step env df col acc) =
     monetary_cols acc @ (if kind_of env df col = Some Monetary then [col] else [])"
  "categorical_cols (classify_step env df col acc) =
     categorical_cols acc @ (if kind_of env df col = Some Categorical then [col] else [])"
  "id_cols (classify_step env df col acc) =
     id_cols acc @ (if kind_of env df col = Some Identifier then [col] else [])"
  "text_cols (classify_step env df col acc) =
     text_cols acc @ (if kind_of env df col = Some Text then [col] else [])"
  by (auto simp: classify_step_def kind_of_def add_col_def
      split: sum.splits option.splits classification.splits)

lemma fold_lists:
  "numeric_cols (fold (classify_step env df) cols acc) =
     numeric_cols acc @ filter (\<lambda>col. kind_of env df col = Some Numeric) cols"
  "date_cols (fold (classify_step env df) cols acc) =
     date_cols acc @ filter (\<lambda>col. kind_of env df col = Some DateKind) cols"
  "monetary_cols (fold (classify_step env df) cols acc) =
     monetary_cols acc @ filter (\<lambda>col. kind_of env df col = Some Monetary) cols"
  "categorical_cols (fold (classify_step env df) cols acc) =
     categorical_cols acc @ filter (\<lambda>col. kind_of env df col = Some Categorical) cols"
  "id_cols (fold (classify_step env df) cols acc) =
     id_cols acc @ filter (\<lambda>col. kind_of env df col = Some Identifier) cols"
  "text_cols (fold (classify_step env df) cols acc) =
     text_cols acc @ filter (\<lambda>col. kind_of env df col = Some Text) cols"
  by (induction cols arbitrary: acc; simp add: classify_step_lists)+

lemma classify_step_unique_vals:
  "map_of (unique_vals (classify_step env df col acc)) c =
     (if c = col \<and> kind_of env df col = Some Categorical
      then (case getitem df col of
              Inl e \<Rightarrow> None
            | Inr s \<Rightarrow> Some (foldr insort_cell (unique (dropna (cells s))) []))
      else map_of (unique_vals acc) c)"
  by (auto simp: classify_step_def kind_of_def add_col_def update_conv'
      split: sum.splits option.splits classification.splits)

lemma fold_unique_vals:
  "map_of (unique_vals (fold (classify_step env df) cols acc)) c =
     (if c \<in> set cols \<and> kind_of env df c = Some Categorical
      then (case getitem df c of
              Inl e \<Rightarrow> None
            | Inr s \<Rightarrow> Some (foldr insort_cell (unique (dropna (cells s))) []))
      else map_of (unique_vals acc) c)"
  by (induction cols arbitrary: acc) (auto simp: classify_step_unique_vals)

lemma detect_column_types_sortable:
  assumes "sortable_categoricals env df"
  shows "detect_column_types env df =
     Inr (df\<lparr>attrs_column_types :=
                Some [(''numeric'', cols_of_kind env df Numeric),
                      (''date'', cols_of_kind env df DateKind),
                      (''monetary'', cols_of_kind env df Monetary),
                      (''categorical'', cols_of_kind env df Categorical),
                      (''id'', cols_of_kind env df Identifier),
                      (''text'', cols_of_kind env df Text)],
              attrs_unique_values :=
                Some (unique_vals (fold (classify_step env df) (map fst (columns df)) no_types))\<rparr>)"
proof -
  from assms have "\<forall>col \<in> set (map fst (columns df)). \<not> unsortable env df col"
    by (simp add: sortable_categoricals_def list_all_iff)
  from detect_loop_fold [OF subset_refl this, of no_types] show ?thesis
    by (simp add: detect_column_types_def fold_lists cols_of_kind_def no_types_def)
qed

lemma detect_column_types_unsortable:
  assumes "\<not> sortable_categoricals env df"
  shows "detect_column_types env df = Inl TypeError"
proof -
  from assms have "\<exists>col \<in> set (map fst (columns df)). unsortable env df col"
    by (simp add: sortable_categoricals_def list_all_iff)
  from detect_loop_raises [OF subset_refl this, of no_types] show ?thesis
    by (simp add: detect_column_types_def)
qed

lemma detect_column_types_uniform:
  assumes "uniform df"
  shows "detect_column_types env df =
     Inr (df\<lparr>attrs_column_types :=
                Some [(''numeric'', cols_of_kind env df Numeric),
                      (''date'', cols_of_kind env df DateKind),
                      (''monetary'', cols_of_kind env df Monetary),
                      (''categorical'', cols_of_kind env df Categorical),
                      (''id'', cols_of_kind env df Identifier),
                      (''text'', cols_of_kind env df Text)],
              attrs_unique_values :=
                Some (unique_vals (fold (classify_step env df) (map fst (columns df)) no_types))\<rparr>)"
  by (rule detect_column_types_sortable [OF uniform_sortable_categoricals [OF assms]])

lemma col_index_mem: "col_index col cs = Some i \<Longrightarrow> col \<in> fst ` set cs"
  by (induction cs arbitrary: i) (auto split: if_splits)

lemma getitem_mem: "getitem df col = Inr s \<Longrightarrow> col \<in> set (map fst (columns df))"
  by (auto simp: getitem_def split: option.splits dest: col_index_mem)

lemma schema_list_detect:
  assumes "uniform df"
  shows "\<exists>df'. detect_column_types env df = Inr df'
      \<and> attrs_column_types df' =
          Some [(''numeric'', cols_of_kind env df Numeric),
                (''date'', cols_of_kind env df DateKind),
                (''monetary'', cols_of_kind env df Monetary),
                (''categorical'', cols_of_kind env df Categorical),
                (''id'', cols_of_kind env df Identifier),
                (''text'', cols_of_kind env df Text)]
      \<and> schema_list df' ''numeric'' = cols_of_kind env df Numeric
      \<and> schema_list df' ''date'' = cols_of_kind env df DateKind
      \<and> schema_list df' ''monetary'' = cols_of_kind env df Monetary
      \<and> schema_list df' ''categorical'' = cols_of_kind env df Categorical
      \<and> schema_list df' ''id'' = cols_of_kind env df Identifier
      \<and> schema_list df' ''text'' = cols_of_kind env df Text"
  by (simp add: detect_column_types_uniform [OF assms] schema_list_def dict_get_def)

lemma schema_list_sortable:
  assumes "sortable_categoricals env df"
  shows "\<exists>df'. detect_column_types env df = Inr df'
      \<and> attrs_column_types df' =
          Some [(''numeric'', cols_of_kind env df Numeric),
                (''date'', cols_of_kind env df DateKind),
                (''monetary'', cols_of_kind env df Monetary),
                (''categorical'', cols_of_kind env df Categorical),
                (''id'', cols_of_kind env df Identifier),
                (''text'', cols_of_kind env df Text)]
      \<and> schema_list df' ''date'' = cols_of_kind env df DateKind
      \<and> schema_list df' ''categorical'' = cols_of_kind env df Categorical
      \<and> schema_list df' ''text'' = cols_of_kind env df Text"
  by (simp add: detect_column_types_sortable [OF assms] schema_list_def dict_get_def)

lemma mem_cols_of_kind:
  "getitem df col = Inr s \<Longrightarrow>
   col \<in> set (cols_of_kind env df k) \<longleftrightarrow> classify env col s = Some k"
  using getitem_mem [of df col s] by (auto simp: cols_of_kind_def kind_of_def)

lemma dropna_not_all: "dropna (cells s) \<noteq> [] \<Longrightarrow> \<not> isna_all s"
  by (auto simp: dropna_def isna_all_def list_all_iff filter_empty_conv)

text \<open>
  C7: a column that is not of numeric type, whose name has no identifier token and no
  date token, and which has 200 values that are not missing, is listed as categorical
  when 50 of them are distinct and as text when 51 are (51 exceeds 50, and 51/200
  exceeds 0.2).  The frame is taken in the data model of the specification: each column
  holds values of one kind.
\<close>

theorem categorical_threshold:
  assumes u: "uniform df" and g: "getitem df col = Inr s"
    and i: "\<not> name_has id_terms col" and d: "\<not> name_has date_terms col"
    and n: "dtype s \<noteq> numeric" and t: "length (dropna (cells s)) = 200"
  shows "\<exists>df'. detect_column_types env df = Inr df'
      \<and> (nunique s = 50 \<longrightarrow>
            col \<in> set (schema_list df' ''categorical'') \<and> col \<notin> set (schema_list df' ''text''))
      \<and> (nunique s = 51 \<longrightarrow>
            col \<in> set (schema_list df' ''text'') \<and> col \<notin> set (schema_list df' ''categorical''))"
proof -
  from t have na: "\<not> isna_all s" by (intro dropna_not_all) auto
  have c50: "nunique s = 50 \<Longrightarrow> classify env col s = Some Categorical"
    using na i d n by (simp add: classify_def)
  have c51: "nunique s = 51 \<Longrightarrow> classify env col s = Some Text"
    using na i d n t by (simp add: classify_def)
  from schema_list_detect [OF u, of env] obtain df' where
    r: "detect_column_types env df = Inr df'"
    and cat: "schema_list df' ''categorical'' = cols_of_kind env df Categorical"
    and tx: "schema_list df' ''text'' = cols_of_kind env df Text"
    by blast
  from c50 c51 show ?thesis
    by (intro exI [of _ df']) (auto simp: r cat tx mem_cols_of_kind [OF g])
qed

text \<open>
  C9, amended: a column whose name contains a date token but whose values do not all
  parse as dates is not listed as a date column: the failed conversion is caught.  When
  every column that the distinct-value rule takes as categorical holds values of one
  kind, the classifier returns, the column is listed as categorical or as text by that
  rule (unless an identifier name or a numeric type takes it first), and every column
  of the frame is listed under its own kind.  Otherwise \<open>sorted()\<close> raises and the
  classifier ends with \<open>TypeError\<close>.
\<close>

theorem unparseable_date_column:
  assumes g: "getitem df col = Inr s"
    and d: "name_has date_terms col" and p: "\<not> to_datetime_ok env s"
  shows "(sortable_categoricals env df \<longrightarrow>
           (\<exists>df'. detect_column_types env df = Inr df'
              \<and> col \<notin> set (schema_list df' ''date'')
              \<and> (\<not> name_has id_terms col \<and> dtype s \<noteq> numeric \<longrightarrow>
                   (if nunique s \<le> 50
                       \<or> ((of_nat (nunique s) :: rat) / of_nat (length (dropna (cells s))) \<le> 2 / 10
                           \<and> nunique s \<le> 100)
                    then col \<in> set (schema_list df' ''categorical'')
                    else col \<in> set (schema_list df' ''text'')))
              \<and> attrs_column_types df' =
                  Some [(''numeric'', cols_of_kind env df Numeric),
                        (''date'', cols_of_kind env df DateKind),
                        (''monetary'', cols_of_kind env df Monetary),
                        (''categorical'', cols_of_kind env df Categorical),
                        (''id'', cols_of_kind env df Identifier),
                        (''text'', cols_of_kind env df Text)]))
       \<and> (\<not> sortable_categoricals env df \<longrightarrow> detect_column_types env df = Inl TypeError)"
proof (intro conjI impI)
  assume u: "sortable_categoricals env df"
  from p have na: "\<not> isna_all s"
    by (auto simp: to_datetime_ok_def isna_all_def list_all_iff split: cell.splits)
  from schema_list_sortable [OF u] obtain df' where
    r: "detect_column_types env df = Inr df'"
    and a: "attrs_column_types df' =
          Some [(''numeric'', cols_of_kind env df Numeric),
                (''date'', cols_of_kind env df DateKind),
                (''monetary'', cols_of_kind env df Monetary),
                (''categorical'', cols_of_kind env df Categorical),
                (''id'', cols_of_kind env df Identifier),
                (''text'', cols_of_kind env df Text)]"
    and dat: "schema_list df' ''date'' = cols_of_kind env df DateKind"
    and cat: "schema_list df' ''categorical'' = cols_of_kind env df Categorical"
    and tx: "schema_list df' ''text'' = cols_of_kind env df Text"
    by blast
  have "classify env col s \<noteq> Some DateKind"
    using p by (simp add: classify_def)
  moreover have "classify env col s =
      (if nunique s \<le> 50
               \<or> ((of_nat (nunique s) :: rat) / of_nat (length (dropna (cells s))) \<le> 2 / 10
                   \<and> nunique s \<le> 100)
       then Some Categorical else Some Text)"
    if "\<not> name_has id_terms col" "dtype s \<noteq> numeric"
    using that na p by (simp add: classify_def)
  ultimately show "\<exists>df'. detect_column_types env df = Inr df'
              \<and> col \<notin> set (schema_list df' ''date'')
              \<and> (\<not> name_has id_terms col \<and> dtype s \<noteq> numeric \<longrightarrow>
                   (if nunique s \<le> 50
                       \<or> ((of_nat (nunique s) :: rat) / of_nat (length (dropna (cells s))) \<le> 2 / 10
                           \<and> nunique s \<le> 100)
                    then col \<in> set (schema_list df' ''categorical'')
                    else col \<in> set (schema_list df' ''text'')))
              \<and> attrs_column_types df' =
                  Some [(''numeric'', cols_of_kind env df Numeric),
                        (''date'', cols_of_kind env df DateKind),
                        (''monetary'', cols_of_kind env df Monetary),
                        (''categorical'', cols_of_kind env df Categorical),
                        (''id'', cols_of_kind env df Identifier),
                        (''text'', cols_of_kind env df Text)]"
    by (intro exI [of _ df']) (auto simp: r a dat cat tx mem_cols_of_kind [OF g])
next
  assume "\<not> sortable_categoricals env df"
  then show "detect_column_types env df = Inl TypeError"
    by (rule detect_column_types_unsortable)
qed

lemma mod_image: "0 < m \<Longrightarrow> m \<le> n \<Longrightarrow> (\<lambda>i. i mod m) ` {0..<n} = {0..<(m::nat)}"
proof (intro equalityI subsetI)
  fix x assume "0 < m" and "x \<in> (\<lambda>i. i mod m) ` {0..<n}"
  then show "x \<in> {0..<m}" by auto
next
  fix x assume "m \<le> n" and "x \<in> {0..<m}"
  then have "x mod m = x" "x \<in> {0..<n}" by auto
  then show "x \<in> (\<lambda>i. i mod m) ` {0..<n}" by (metis imageI)
qed

lemma cyclic_column:
  assumes c: "cells s = map (\<lambda>i. g (i mod m)) [0..<n]"
    and inj: "inj g" and na: "\<And>k. g k \<noteq> NA" and m: "0 < m" "m \<le> n"
  shows "nunique s = m" and "length (dropna (cells s)) = n"
proof -
  have d: "dropna (cells s) = cells s"
    by (simp add: dropna_def c na)
  show "length (dropna (cells s)) = n"
    by (simp only: d) (simp add: c)
  have "set (cells s) = g ` ((\<lambda>i. i mod m) ` {0..<n})"
    by (simp add: c image_image)
  also have "\<dots> = g ` {0..<m}" by (simp only: mod_image [OF m])
  finally have "card (set (cells s)) = m"
    using inj by (simp add: card_image inj_on_def inj_def)
  then show "nunique s = m"
    by (simp add: nunique_def d length_unique)
qed

lemma inj_replicate_text: "inj (\<lambda>k. Str (replicate k c))"
proof (rule injI)
  fix a b assume "Str (replicate a c) = Str (replicate b c)"
  then have "length (replicate a c) = length (replicate b c)" by simp
  then show "a = b" by simp
qed

lemma threshold_region:
  "getitem threshold_df ''Region'' =
     Inr \<lparr>dtype = object, cells = map (\<lambda>i. Str (replicate (i mod 50) CHR ''r'')) [0..<200]\<rparr>"
  by (simp add: getitem_def threshold_df_def cell_at_def o_def)

lemma threshold_vendor:
  "getitem threshold_df ''Vendor'' =
     Inr \<lparr>dtype = object, cells = map (\<lambda>i. Str (replicate (i mod 51) CHR ''v'')) [0..<200]\<rparr>"
  by (simp add: getitem_def threshold_df_def cell_at_def o_def)

lemma uniform_texts: "uniform_series \<lparr>dtype = dt, cells = map (\<lambda>i. Str (f i)) xs\<rparr>"
  by (simp add: uniform_series_def list_all_iff)

lemma threshold_uniform: "uniform threshold_df"
proof -
  have "map fst (columns threshold_df) = [''Region'', ''Vendor'']"
    by (simp add: threshold_df_def)
  then show ?thesis
    by (simp add: uniform_def threshold_region threshold_vendor uniform_texts)
qed

lemma threshold_names:
  "\<not> name_has id_terms ''Region''" "\<not> name_has date_terms ''Region''"
  "\<not> name_has id_terms ''Vendor''" "\<not> name_has date_terms ''Vendor''"
  by (simp_all add: name_has_def id_terms_def date_terms_def lower_def lower_char_def)

text \<open>
  Witness for C7: in the frame of 200 rows, \<open>Region\<close> has 50 distinct texts and is
  listed as categorical, \<open>Vendor\<close> has 51 and is listed as text.
\<close>

theorem categorical_threshold_witness:
  "uniform threshold_df
   \<and> getitem threshold_df ''Region'' =
       Inr \<lparr>dtype = object, cells = map (\<lambda>i. Str (replicate (i mod 50) CHR ''r'')) [0..<200]\<rparr>
   \<and> nunique \<lparr>dtype = object, cells = map (\<lambda>i. Str (replicate (i mod 50) CHR ''r'')) [0..<200]\<rparr> = 50
   \<and> length (dropna (map (\<lambda>i. Str (replicate (i mod 50) CHR ''r'')) [0..<200])) = 200
   \<and> getitem threshold_df ''Vendor'' =
       Inr \<lparr>dtype = object, cells = map (\<lambda>i. Str (replicate (i mod 51) CHR ''v'')) [0..<200]\<rparr>
   \<and> nunique \<lparr>dtype = object, cells = map (\<lambda>i. Str (replicate (i mod 51) CHR ''v'')) [0..<200]\<rparr> = 51
   \<and> length (dropna (map (\<lambda>i. Str (replicate (i mod 51) CHR ''v'')) [0..<200])) = 200
   \<and> (\<exists>df'. detect_column_types default_env threshold_df = Inr df'
         \<and> schema_list df' ''categorical'' = [''Region'']
         \<and> schema_list df' ''text'' = [''Vendor''])"
proof -
  let ?r = "\<lparr>dtype = object, cells = map (\<lambda>i. Str (replicate (i mod 50) CHR ''r'')) [0..<200]\<rparr>"
  let ?v = "\<lparr>dtype = object, cells = map (\<lambda>i. Str (replicate (i mod 51) CHR ''v'')) [0..<200]\<rparr>"
  have r: "nunique ?r = 50" "length (dropna (cells ?r)) = 200"
    by (rule cyclic_column [where g = "\<lambda>k. Str (replicate k CHR ''r'')" and m = 50 and n = 200];
        simp add: inj_replicate_text)+
  have v: "nunique ?v = 51" "length (dropna (cells ?v)) = 200"
    by (rule cyclic_column [where g = "\<lambda>k. Str (replicate k CHR ''v'')" and m = 51 and n = 200];
        simp add: inj_replicate_text)+
  from categorical_threshold [OF threshold_uniform threshold_region threshold_names(1,2) _ r(2),
      of default_env]
  obtain d1 where d1: "detect_column_types default_env threshold_df = Inr d1"
    and c1: "''Region'' \<in> set (schema_list d1 ''categorical'')"
            "''Region'' \<notin> set (schema_list d1 ''text'')"
    using r(1) by auto
  from categorical_threshold [OF threshold_uniform threshold_vendor threshold_names(3,4) _ v(2),
      of default_env]
  obtain d2 where d2: "detect_column_types default_env threshold_df = Inr d2"
    and c2: "''Vendor'' \<in> set (schema_list d2 ''text'')"
            "''Vendor'' \<notin> set (schema_list d2 ''categorical'')"
    using v(1) by auto
  from d1 d2 have e: "d2 = d1" by simp
  from schema_list_detect [OF threshold_uniform, of default_env] d1
  have l: "schema_list d1 ''categorical'' = cols_of_kind default_env threshold_df Categorical"
    "schema_list d1 ''text'' = cols_of_kind default_env threshold_df Text"
    by auto
  have cols: "map fst (columns threshold_df) = [''Region'', ''Vendor'']"
    by (simp add: threshold_df_def)
  have "schema_list d1 ''categorical'' = [''Region'']" "schema_list d1 ''text'' = [''Vendor'']"
    using c1 c2 unfolding e l cols_of_kind_def cols
    by (auto split: if_splits)
  with d1 r v threshold_uniform threshold_region threshold_vendor show ?thesis
    by simp
qed


lemma bad_date_detect:
  "detect_column_types default_env bad_date_df =
     Inr (bad_date_df\<lparr>attrs_column_types := Some [(''numeric'', []), (''date'', []),
            (''monetary'', []), (''categorical'', [''Order Date'', ''Category'']), (''id'', []),
            (''text'', [])],
          attrs_unique_values := Some [(''Order Date'', [Str ''2022-01-01'', Str ''soon'']),
                                       (''Category'', [Str ''A'', Str ''B''])]\<rparr>)"
  by (simp add: detect_column_types_def detect_step_def getitem_def bad_date_df_def isna_all_def
      name_has_def id_terms_def money_terms_def date_terms_def lower_def lower_char_def cell_at_def
      nunique_def unique_def dropna_def looks_categorical_def py_sorted_def sortable_def
      no_types_def default_env_def to_datetime_ok_def)

lemma bad_date_facts:
  "uniform bad_date_df"
  "getitem bad_date_df ''Order Date'' =
     Inr \<lparr>dtype = object, cells = [Str ''soon'', Str ''2022-01-01'']\<rparr>"
  "name_has date_terms ''Order Date''"
  "\<not> to_datetime_ok default_env \<lparr>dtype = object, cells = [Str ''soon'', Str ''2022-01-01'']\<rparr>"
  by (simp_all add: uniform_def uniform_series_def getitem_def bad_date_df_def cell_at_def
      name_has_def date_terms_def lower_def lower_char_def to_datetime_ok_def default_env_def)

lemma mixed_date_facts:
  "getitem mixed_date_df ''Order Date'' =
     Inr \<lparr>dtype = object, cells = [Date 0, Str ''TBD'']\<rparr>"
  "name_has date_terms ''Order Date''"
  "\<not> to_datetime_ok default_env \<lparr>dtype = object, cells = [Date 0, Str ''TBD'']\<rparr>"
  by (simp_all add: getitem_def mixed_date_df_def cell_at_def
      name_has_def date_terms_def lower_def lower_char_def to_datetime_ok_def default_env_def)

lemma mixed_date_detect: "detect_column_types default_env mixed_date_df = Inl TypeError"
  by (simp add: detect_column_types_def detect_step_def getitem_def mixed_date_df_def isna_all_def
      name_has_def id_terms_def money_terms_def date_terms_def lower_def lower_char_def cell_at_def
      nunique_def unique_def dropna_def looks_categorical_def py_sorted_def sortable_def
      no_types_def default_env_def to_datetime_ok_def)

text \<open>
  C9, as stated, fails.  The \<open>Order Date\<close> column of this frame holds a timestamp and
  the text \<open>TBD\<close>: its name contains a date token and its values do not all parse.  The
  failed conversion is caught, the two distinct values make the column categorical, and
  \<open>sorted()\<close> on a timestamp and a text raises: the classifier ends with \<open>TypeError\<close>
  and no schema is written.
\<close>

theorem mixed_date_column_raises:
  "getitem mixed_date_df ''Order Date'' =
     Inr \<lparr>dtype = object, cells = [Date 0, Str ''TBD'']\<rparr>
   \<and> name_has date_terms ''Order Date''
   \<and> \<not> to_datetime_ok default_env \<lparr>dtype = object, cells = [Date 0, Str ''TBD'']\<rparr>
   \<and> detect_column_types default_env mixed_date_df = Inl TypeError"
  using mixed_date_facts mixed_date_detect by simp

text \<open>
  Witness for C9 (amended): in \<open>bad_date_df\<close> the column \<open>Order Date\<close> holds the text
  \<open>soon\<close> next to a date text; the classifier returns, the date list is empty and the
  column is listed as categorical, as is \<open>Category\<close>.  In \<open>mixed_date_df\<close> the column
  mixes a timestamp and a text, and the classifier ends with \<open>TypeError\<close>.
\<close>

theorem unparseable_date_column_witness:
  "getitem bad_date_df ''Order Date'' =
       Inr \<lparr>dtype = object, cells = [Str ''soon'', Str ''2022-01-01'']\<rparr>
   \<and> name_has date_terms ''Order Date''
   \<and> \<not> to_datetime_ok default_env \<lparr>dtype = object, cells = [Str ''soon'', Str ''2022-01-01'']\<rparr>
   \<and> sortable_categoricals default_env bad_date_df
   \<and> (\<exists>df'. detect_column_types default_env bad_date_df = Inr df'
         \<and> schema_list df' ''date'' = []
         \<and> schema_list df' ''categorical'' = [''Order Date'', ''Category''])
   \<and> getitem mixed_date_df ''Order Date'' =
       Inr \<lparr>dtype = object, cells = [Date 0, Str ''TBD'']\<rparr>
   \<and> \<not> to_datetime_ok default_env \<lparr>dtype = object, cells = [Date 0, Str ''TBD'']\<rparr>
   \<and> \<not> sortable_categoricals default_env mixed_date_df
   \<and> detect_column_types default_env mixed_date_df = Inl TypeError"
proof -
  have s: "sortable_categoricals default_env bad_date_df"
    by (rule uniform_sortable_categoricals [OF bad_date_facts(1)])
  have n: "\<not> sortable_categoricals default_env mixed_date_df"
  proof
    assume "sortable_categoricals default_env mixed_date_df"
    from detect_column_types_sortable [OF this] mixed_date_detect show False by simp
  qed
  from unparseable_date_column [OF bad_date_facts(2,3,4)]
    unparseable_date_column [OF mixed_date_facts]
    bad_date_facts mixed_date_facts s n
  show ?thesis
    by (simp add: bad_date_detect schema_list_def dict_get_def)
qed

section \<open>Properties of the filter synthesizer\<close>

lemma specs_append:
  "specs (st\<lparr>rendered := rendered st @ xs\<rparr>) = specs st @ List.map_filter spec_of xs"
  by (simp add: specs_def map_filter_def)

lemma specs_filter_count [simp]: "specs (st\<lparr>filter_count := n\<rparr>) = specs st"
  by (simp add: specs_def)

lemma specs_filters [simp]: "specs (st\<lparr>filters := f\<rparr>) = specs st"
  by (simp add: specs_def)

lemma selectbox_step_specs:
  "specs (selectbox_step env col vals key st) = specs st @ [EnumChoice col]"
  "filter_count (selectbox_step env col vals key st) = filter_count st"
  by (simp_all add: selectbox_step_def Let_def specs_def map_filter_def)

lemma date_step_specs:
  "(specs (date_step env data col st) = specs st
      \<and> filter_count (date_step env data col st) = filter_count st)
   \<or> (specs (date_step env data col st) = specs st @ [DateRange col]
      \<and> filter_count (date_step env data col st) = filter_count st + 1)"
  by (auto simp: date_step_def Let_def specs_def map_filter_def split: sum.splits prod.splits)

lemma numeric_step_specs:
  "(specs (numeric_step env data col st) = specs st
      \<and> filter_count (numeric_step env data col st) = filter_count st)
   \<or> (specs (numeric_step env data col st) = specs st @ [NumericRange col]
      \<and> filter_count (numeric_step env data col st) = filter_count st + 1)"
  by (auto simp: numeric_step_def Let_def specs_def map_filter_def split: sum.splits prod.splits)

lemma categorical_loop_budget:
  "within_budget m st \<Longrightarrow>
   within_budget m (final_state (categorical_loop env data only m uv cols st))"
proof (induction cols arbitrary: st)
  case Nil
  then show ?case by (simp add: final_state_def)
next
  case (Cons col cols)
  show ?case
  proof (cases "not_requested only col \<or> m \<le> int (filter_count st)")
    case True
    with Cons show ?thesis by (auto simp: final_state_def)
  next
    case False
    show ?thesis
    proof (cases "categorical_values data uv col")
      case (Inl e)
      with False Cons.prems show ?thesis by (simp add: final_state_def)
    next
      case (Inr vals)
      let ?st = "(selectbox_step env col vals (FilterKey col (filter_count st)) st)
                   \<lparr>filter_count := filter_count st + 1\<rparr>"
      have "within_budget m ?st"
        using False Cons.prems by (simp add: within_budget_def selectbox_step_specs)
      from Cons.IH [OF this] Cons.IH [OF Cons.prems] False Inr show ?thesis by simp
    qed
  qed
qed

lemma date_loop_budget:
  "within_budget m st \<Longrightarrow> within_budget m (date_loop env data only m cols st)"
proof (induction cols arbitrary: st)
  case Nil
  then show ?case by simp
next
  case (Cons col cols)
  show ?case
  proof (cases "not_requested only col \<or> m \<le> int (filter_count st)")
    case True
    with Cons show ?thesis by auto
  next
    case False
    have "within_budget m (date_step env data col st)"
      using False Cons.prems date_step_specs [of env data col st]
      by (auto simp: within_budget_def)
    from Cons.IH [OF this] False show ?thesis by simp
  qed
qed

lemma numeric_loop_budget:
  "within_budget m st \<Longrightarrow> within_budget m (numeric_loop env data only m cols st)"
proof (induction cols arbitrary: st)
  case Nil
  then show ?case by simp
next
  case (Cons col cols)
  show ?case
  proof (cases "not_requested only col \<or> m \<le> int (filter_count st)")
    case True
    with Cons show ?thesis by auto
  next
    case False
    have "within_budget m (numeric_step env data col st)"
      using False Cons.prems numeric_step_specs [of env data col st]
      by (auto simp: within_budget_def)
    from Cons.IH [OF this] False show ?thesis by simp
  qed
qed

lemma basic_loop_specs:
  "length (specs (final_state (basic_loop env data cols st))) \<le> length (specs st) + length cols"
proof (induction cols arbitrary: st)
  case Nil
  then show ?case by (simp add: final_state_def)
next
  case (Cons col cols)
  show ?case
  proof (cases "sorted_values data col")
    case (Inl e)
    then show ?thesis by (simp add: final_state_def)
  next
    case (Inr vals)
    let ?st = "if length vals \<le> 100 then selectbox_step env col vals (BasicFilterKey col) st else st"
    have "length (specs ?st) \<le> length (specs st) + 1"
      by (simp add: selectbox_step_specs)
    with Cons.IH [of ?st] Inr show ?thesis by simp
  qed
qed

lemma py_take_length: "0 \<le> m \<Longrightarrow> int (length (py_take m xs)) \<le> m"
  by (simp add: py_take_def)

lemma initial_budget: "within_budget m initial_state"
  by (simp add: within_budget_def initial_state_def specs_def map_filter_def)

lemma generate_budget:
  assumes "0 \<le> m"
  shows "int (length (specs (final_state (generate_dynamic_filters env data only m)))) \<le> m"
proof (cases data)
  case None
  with assms show ?thesis
    by (simp add: generate_dynamic_filters_def final_state_def initial_state_def specs_def
        map_filter_def)
next
  case (Some df)
  show ?thesis
  proof (cases "empty df")
    case True
    with Some assms show ?thesis
      by (simp add: generate_dynamic_filters_def final_state_def initial_state_def specs_def
          map_filter_def)
  next
    case False
    show ?thesis
    proof (cases "attrs_column_types df")
      case (Some ct)
      let ?c = "categorical_loop env df only m (stored_values df)
                  (dict_get ct ''categorical'') initial_state"
      have b: "within_budget m (final_state ?c)"
        by (rule categorical_loop_budget [OF initial_budget])
      show ?thesis
      proof (cases ?c)
        case (Inl p)
        with b \<open>data = Some df\<close> False Some assms show ?thesis
          by (simp add: generate_dynamic_filters_def within_budget_def)
      next
        case (Inr st1)
        with b have "within_budget m st1" by (simp add: final_state_def)
        then have "within_budget m
           (numeric_loop env df only m (dict_get ct ''numeric'')
              (date_loop env df only m (dict_get ct ''datetime'') st1))"
          by (intro numeric_loop_budget date_loop_budget)
        with Inr \<open>data = Some df\<close> False Some assms show ?thesis
          by (simp add: generate_dynamic_filters_def within_budget_def final_state_def)
      qed
    next
      case None
      show ?thesis
      proof (cases "cat_cols_of df only (map fst (columns df))")
        case (Inl e)
        with None \<open>data = Some df\<close> False assms show ?thesis
          by (simp add: generate_dynamic_filters_def final_state_def initial_state_def specs_def
              map_filter_def)
      next
        case (Inr cat_cols)
        have "length (specs (final_state (basic_loop env df (py_take m cat_cols) initial_state)))
              \<le> length (py_take m cat_cols)"
          using basic_loop_specs [of env df "py_take m cat_cols" initial_state]
          by (simp add: initial_state_def specs_def map_filter_def)
        with py_take_length [OF assms, of cat_cols] Inr None \<open>data = Some df\<close> False
        show ?thesis by (simp add: generate_dynamic_filters_def)
      qed
    qed
  qed
qed

lemma schema_run3:
  "specs (final_state (generate_dynamic_filters default_env (Some schema_df) None 3))
     = [EnumChoice ''Region'', EnumChoice ''Status'', DateRange ''Created'']"
  by (simp add: generate_dynamic_filters_def schema_df_def empty_def getitem_def cell_at_def
      unique_def sorted_values_def categorical_values_def stored_values_def dropna_def
      py_sorted_def sortable_def dict_get_def
      selectbox_step_def date_step_def date_bounds_def series_min_def series_max_def
      numeric_step_def numeric_bounds_def float_of_def step_size_def
      default_env_def initial_state_def final_state_def specs_def
      map_filter_def not_requested_def Let_def)

lemma schema_run4:
  "specs (final_state (generate_dynamic_filters default_env (Some schema_df) None 4))
     = [EnumChoice ''Region'', EnumChoice ''Status'', DateRange ''Created'', NumericRange ''Score'']"
  by (simp add: generate_dynamic_filters_def schema_df_def empty_def getitem_def cell_at_def
      unique_def sorted_values_def categorical_values_def stored_values_def dropna_def
      py_sorted_def sortable_def dict_get_def
      selectbox_step_def date_step_def date_bounds_def series_min_def series_max_def
      numeric_step_def numeric_bounds_def float_of_def step_size_def
      default_env_def initial_state_def final_state_def specs_def
      map_filter_def not_requested_def Let_def)

lemma schema_run2:
  "generate_dynamic_filters default_env (Some schema_df) None 2
     = Inr \<lparr>filters = [], filter_count = 2,
            rendered = [Selectbox ''Region'' [Str ''All Region'', Str ''N'', Str ''S'']
                          (FilterKey ''Region'' 0),
                        Selectbox ''Status'' [Str ''All Status'', Str ''done'', Str ''open'']
                          (FilterKey ''Status'' 1)]\<rparr>"
  by (simp add: generate_dynamic_filters_def schema_df_def empty_def getitem_def cell_at_def
      unique_def sorted_values_def categorical_values_def stored_values_def dropna_def
      py_sorted_def sortable_def dict_get_def
      selectbox_step_def date_step_def date_bounds_def series_min_def series_max_def
      numeric_step_def numeric_bounds_def float_of_def step_size_def
      default_env_def initial_state_def final_state_def specs_def
      map_filter_def not_requested_def Let_def)

lemma categorical_loop_full:
  "m \<le> int (filter_count st) \<Longrightarrow> categorical_loop env data only m uv cols st = Inr st"
  by (induction cols) auto

lemma date_loop_full:
  "m \<le> int (filter_count st) \<Longrightarrow> date_loop env data only m cols st = st"
  by (induction cols) auto

lemma numeric_loop_full:
  "m \<le> int (filter_count st) \<Longrightarrow> numeric_loop env data only m cols st = st"
  by (induction cols) auto

lemma categorical_loop_specs:
  "\<exists>cs. specs (final_state (categorical_loop env data only m uv cols st))
           = specs st @ map EnumChoice cs \<and> subseq cs cols"
proof (induction cols arbitrary: st)
  case Nil
  show ?case by (intro exI [of _ "[]"]) (simp add: final_state_def)
next
  case (Cons col cols)
  show ?case
  proof (cases "not_requested only col")
    case True
    from Cons.IH [of st] obtain cs where
      "specs (final_state (categorical_loop env data only m uv cols st)) = specs st @ map EnumChoice cs"
      "subseq cs cols" by blast
    with True show ?thesis by (intro exI [of _ cs]) (simp add: list_emb_Cons)
  next
    case nr: False
    show ?thesis
    proof (cases "m \<le> int (filter_count st)")
      case True
      with nr show ?thesis by (intro exI [of _ "[]"]) (simp add: final_state_def)
    next
      case False
      show ?thesis
      proof (cases "categorical_values data uv col")
        case (Inl e)
        with nr False show ?thesis by (intro exI [of _ "[]"]) (simp add: final_state_def)
      next
        case (Inr vals)
        show ?thesis
        proof (cases "length vals \<le> 100")
          case True
          let ?st = "(selectbox_step env col vals (FilterKey col (filter_count st)) st)
                       \<lparr>filter_count := filter_count st + 1\<rparr>"
          from Cons.IH [of ?st] obtain cs where
            "specs (final_state (categorical_loop env data only m uv cols ?st))
               = specs ?st @ map EnumChoice cs" "subseq cs cols" by blast
          with nr False Inr True show ?thesis
            by (intro exI [of _ "col # cs"]) (simp add: selectbox_step_specs)
        next
          case big: False
          from Cons.IH [of st] obtain cs where
            "specs (final_state (categorical_loop env data only m uv cols st))
               = specs st @ map EnumChoice cs" "subseq cs cols" by blast
          with nr False Inr big show ?thesis
            by (intro exI [of _ cs]) (simp add: list_emb_Cons)
        qed
      qed
    qed
  qed
qed

lemma date_loop_specs:
  "\<exists>ds. specs (date_loop env data only m cols st) = specs st @ map DateRange ds \<and> subseq ds cols"
proof (induction cols arbitrary: st)
  case Nil
  show ?case by (intro exI [of _ "[]"]) simp
next
  case (Cons col cols)
  show ?case
  proof (cases "not_requested only col")
    case True
    from Cons.IH [of st] obtain ds where
      "specs (date_loop env data only m cols st) = specs st @ map DateRange ds" "subseq ds cols"
      by blast
    with True show ?thesis by (intro exI [of _ ds]) (simp add: list_emb_Cons)
  next
    case nr: False
    show ?thesis
    proof (cases "m \<le> int (filter_count st)")
      case True
      with nr show ?thesis by (intro exI [of _ "[]"]) simp
    next
      case False
      from Cons.IH [of "date_step env data col st"] obtain ds where
        d: "specs (date_loop env data only m cols (date_step env data col st))
              = specs (date_step env data col st) @ map DateRange ds" "subseq ds cols"
        by blast
      from date_step_specs [of env data col st] show ?thesis
      proof
        assume "specs (date_step env data col st) = specs st
                \<and> filter_count (date_step env data col st) = filter_count st"
        with d nr False show ?thesis by (intro exI [of _ ds]) (simp add: list_emb_Cons)
      next
        assume "specs (date_step env data col st) = specs st @ [DateRange col]
                \<and> filter_count (date_step env data col st) = filter_count st + 1"
        with d nr False show ?thesis by (intro exI [of _ "col # ds"]) simp
      qed
    qed
  qed
qed

lemma numeric_loop_specs:
  "\<exists>ns. specs (numeric_loop env data only m cols st) = specs st @ map NumericRange ns
        \<and> subseq ns cols"
proof (induction cols arbitrary: st)
  case Nil
  show ?case by (intro exI [of _ "[]"]) simp
next
  case (Cons col cols)
  show ?case
  proof (cases "not_requested only col")
    case True
    from Cons.IH [of st] obtain ns where
      "specs (numeric_loop env data only m cols st) = specs st @ map NumericRange ns"
      "subseq ns cols"
      by blast
    with True show ?thesis by (intro exI [of _ ns]) (simp add: list_emb_Cons)
  next
    case nr: False
    show ?thesis
    proof (cases "m \<le> int (filter_count st)")
      case True
      with nr show ?thesis by (intro exI [of _ "[]"]) simp
    next
      case False
      from Cons.IH [of "numeric_step env data col st"] obtain ns where
        d: "specs (numeric_loop env data only m cols (numeric_step env data col st))
              = specs (numeric_step env data col st) @ map NumericRange ns" "subseq ns cols"
        by blast
      from numeric_step_specs [of env data col st] show ?thesis
      proof
        assume "specs (numeric_step env data col st) = specs st
                \<and> filter_count (numeric_step env data col st) = filter_count st"
        with d nr False show ?thesis by (intro exI [of _ ns]) (simp add: list_emb_Cons)
      next
        assume "specs (numeric_step env data col st) = specs st @ [NumericRange col]
                \<and> filter_count (numeric_step env data col st) = filter_count st + 1"
        with d nr False show ?thesis by (intro exI [of _ "col # ns"]) simp
      qed
    qed
  qed
qed


lemma categorical_loop_exact:
  assumes "\<forall>c \<in> set cols. not_requested only c \<or> (\<exists>vs. categorical_values data uv c = Inr vs)"
  shows "\<exists>st'. categorical_loop env data only m uv cols st = Inr st'
      \<and> specs st' = specs st @ map EnumChoice
            (take (nat (m - int (filter_count st))) (filter (eligible_categorical data only uv) cols))
      \<and> filter_count st' = filter_count st
            + length (take (nat (m - int (filter_count st)))
                       (filter (eligible_categorical data only uv) cols))"
  using assms
proof (induction cols arbitrary: st)
  case Nil
  show ?case by simp
next
  case (Cons col cols)
  from Cons.prems have rest:
    "\<forall>c \<in> set cols. not_requested only c \<or> (\<exists>vs. categorical_values data uv c = Inr vs)"
    by simp
  show ?case
  proof (cases "not_requested only col")
    case True
    then have "\<not> eligible_categorical data only uv col"
      by (simp add: eligible_categorical_def)
    with Cons.IH [OF rest, of st] True show ?thesis by simp
  next
    case nr: False
    show ?thesis
    proof (cases "m \<le> int (filter_count st)")
      case True
      with nr show ?thesis by simp
    next
      case False
      from Cons.prems nr obtain vals where v: "categorical_values data uv col = Inr vals"
        by auto
      show ?thesis
      proof (cases "length vals \<le> 100")
        case True
        let ?st = "(selectbox_step env col vals (FilterKey col (filter_count st)) st)
                     \<lparr>filter_count := filter_count st + 1\<rparr>"
        have e: "eligible_categorical data only uv col"
          using nr v True by (simp add: eligible_categorical_def)
        from False obtain k where k: "nat (m - int (filter_count st)) = Suc k"
          and k': "nat (m - int (filter_count st + 1)) = k"
          by (cases "nat (m - int (filter_count st))") auto
        from Cons.IH [OF rest, of ?st] obtain st' where
          "categorical_loop env data only m uv cols ?st = Inr st'"
          "specs st' = specs ?st @ map EnumChoice
             (take (nat (m - int (filter_count ?st))) (filter (eligible_categorical data only uv) cols))"
          "filter_count st' = filter_count ?st
             + length (take (nat (m - int (filter_count ?st)))
                        (filter (eligible_categorical data only uv) cols))"
          by blast
        with nr False v True e k k' show ?thesis
          by (simp add: selectbox_step_specs)
      next
        case big: False
        then have "\<not> eligible_categorical data only uv col"
          using v by (simp add: eligible_categorical_def)
        with Cons.IH [OF rest, of st] nr False v big show ?thesis by simp
      qed
    qed
  qed
qed

lemma subseq_take_filter: "subseq (take n (filter P xs)) xs"
proof -
  have "subseq (take n (filter P xs)) (filter P xs)"
    by (metis append_take_drop_id list_emb_append_mono subseq_order.order_refl
        list_emb_Nil append_Nil2)
  then show ?thesis
    using subseq_filter_left subseq_order.order_trans by blast
qed


lemma initial_specs: "specs initial_state = []" "filter_count initial_state = 0"
  by (simp_all add: initial_state_def specs_def map_filter_def)

lemma schema_path_def':
  assumes "attrs_column_types df = Some ct" and "\<not> empty df"
  shows "generate_dynamic_filters env (Some df) only m =
     (case categorical_loop env df only m (stored_values df) (dict_get ct ''categorical'')
             initial_state of
        Inl e \<Rightarrow> Inl e
      | Inr st1 \<Rightarrow>
          Inr (numeric_loop env df only m (dict_get ct ''numeric'')
                 (date_loop env df only m (dict_get ct ''datetime'') st1)))"
  using assms by (simp add: generate_dynamic_filters_def)

lemma schema_path_specs:
  assumes ct: "attrs_column_types df = Some ct" and ne: "\<not> empty df"
  shows "\<exists>cs ds ns.
      specs (final_state (generate_dynamic_filters env (Some df) only m))
        = map EnumChoice cs @ map DateRange ds @ map NumericRange ns
      \<and> subseq cs (dict_get ct ''categorical'')
      \<and> subseq ds (dict_get ct ''datetime'')
      \<and> subseq ns (dict_get ct ''numeric'')"
proof -
  let ?c = "categorical_loop env df only m (stored_values df) (dict_get ct ''categorical'')
              initial_state"
  from categorical_loop_specs [of env df only m "stored_values df" "dict_get ct ''categorical''"
      initial_state]
  obtain cs where cs: "specs (final_state ?c) = map EnumChoice cs"
    "subseq cs (dict_get ct ''categorical'')"
    by (auto simp: initial_specs)
  show ?thesis
  proof (cases ?c)
    case (Inl p)
    with cs show ?thesis
      by (intro exI [of _ cs] exI [of _ "[]"]) (simp add: schema_path_def' [OF ct ne] final_state_def)
  next
    case (Inr st1)
    from date_loop_specs [of env df only m "dict_get ct ''datetime''" st1]
    obtain ds where ds: "specs (date_loop env df only m (dict_get ct ''datetime'') st1)
        = specs st1 @ map DateRange ds" "subseq ds (dict_get ct ''datetime'')"
      by blast
    from numeric_loop_specs [of env df only m "dict_get ct ''numeric''"
        "date_loop env df only m (dict_get ct ''datetime'') st1"]
    obtain ns where ns: "specs (numeric_loop env df only m (dict_get ct ''numeric'')
          (date_loop env df only m (dict_get ct ''datetime'') st1))
        = specs (date_loop env df only m (dict_get ct ''datetime'') st1) @ map NumericRange ns"
      "subseq ns (dict_get ct ''numeric'')"
      by blast
    from cs ds ns Inr show ?thesis
      by (intro exI [of _ cs] exI [of _ ds] exI [of _ ns])
        (simp add: schema_path_def' [OF ct ne] final_state_def)
  qed
qed

lemma schema_path_exact:
  assumes ct: "attrs_column_types df = Some ct" and ne: "\<not> empty df"
    and ok: "\<forall>c \<in> set (dict_get ct ''categorical'').
               not_requested only c \<or> (\<exists>vs. categorical_values df (stored_values df) c = Inr vs)"
  shows "\<exists>ds ns.
      specs (final_state (generate_dynamic_filters env (Some df) only m))
        = map EnumChoice (take (nat m) (filter (eligible_categorical df only (stored_values df))
                                           (dict_get ct ''categorical'')))
          @ map DateRange ds @ map NumericRange ns
      \<and> subseq ds (dict_get ct ''datetime'')
      \<and> subseq ns (dict_get ct ''numeric'')
      \<and> (m \<le> int (length (filter (eligible_categorical df only (stored_values df))
                               (dict_get ct ''categorical''))) \<longrightarrow> ds = [] \<and> ns = [])"
proof -
  let ?el = "filter (eligible_categorical df only (stored_values df)) (dict_get ct ''categorical'')"
  from categorical_loop_exact [OF ok, of env m initial_state]
  obtain st1 where c: "categorical_loop env df only m (stored_values df)
        (dict_get ct ''categorical'') initial_state = Inr st1"
    and sp: "specs st1 = map EnumChoice (take (nat m) ?el)"
    and fc: "filter_count st1 = length (take (nat m) ?el)"
    by (auto simp: initial_specs)
  show ?thesis
  proof (cases "m \<le> int (length ?el)")
    case True
    then have "m \<le> int (filter_count st1)" by (simp add: fc min_def)
    then have "numeric_loop env df only m (dict_get ct ''numeric'')
                 (date_loop env df only m (dict_get ct ''datetime'') st1) = st1"
      by (simp add: date_loop_full numeric_loop_full)
    with c sp show ?thesis
      by (intro exI [of _ "[]"]) (simp add: schema_path_def' [OF ct ne] final_state_def)
  next
    case False
    from date_loop_specs [of env df only m "dict_get ct ''datetime''" st1]
    obtain ds where ds: "specs (date_loop env df only m (dict_get ct ''datetime'') st1)
        = specs st1 @ map DateRange ds" "subseq ds (dict_get ct ''datetime'')"
      by blast
    from numeric_loop_specs [of env df only m "dict_get ct ''numeric''"
        "date_loop env df only m (dict_get ct ''datetime'') st1"]
    obtain ns where ns: "specs (numeric_loop env df only m (dict_get ct ''numeric'')
          (date_loop env df only m (dict_get ct ''datetime'') st1))
        = specs (date_loop env df only m (dict_get ct ''datetime'') st1) @ map NumericRange ns"
      "subseq ns (dict_get ct ''numeric'')"
      by blast
    from c sp ds ns False show ?thesis
      by (intro exI [of _ ds] exI [of _ ns])
        (simp add: schema_path_def' [OF ct ne] final_state_def)
  qed
qed

text \<open>
  C4: on a dataset with a schema, the controls come in the order of the kinds: the enum
  choices of categorical columns first, then the date ranges, then the numeric ranges,
  each in the order of its schema list (the date list is read under the key
  \<open>datetime\<close>).  When the values of the requested categorical columns can be obtained,
  the enum choices are those of the first eligible categorical columns up to the
  budget, and a budget that they use up leaves no date or numeric control: with two
  eligible categorical columns and a budget of 2, exactly the two enum choices.
\<close>

theorem kind_priority:
  assumes ct: "attrs_column_types df = Some ct" and ne: "\<not> empty df"
  shows "\<exists>cs ds ns.
      specs (final_state (generate_dynamic_filters env (Some df) only m))
        = map EnumChoice cs @ map DateRange ds @ map NumericRange ns
      \<and> subseq cs (dict_get ct ''categorical'')
      \<and> subseq ds (dict_get ct ''datetime'')
      \<and> subseq ns (dict_get ct ''numeric'')
      \<and> ((\<forall>c \<in> set (dict_get ct ''categorical'').
             not_requested only c \<or> (\<exists>vs. categorical_values df (stored_values df) c = Inr vs)) \<longrightarrow>
           cs = take (nat m) (filter (eligible_categorical df only (stored_values df))
                                (dict_get ct ''categorical''))
           \<and> (m \<le> int (length (filter (eligible_categorical df only (stored_values df))
                                    (dict_get ct ''categorical''))) \<longrightarrow> ds = [] \<and> ns = []))"
proof (cases "\<forall>c \<in> set (dict_get ct ''categorical'').
             not_requested only c \<or> (\<exists>vs. categorical_values df (stored_values df) c = Inr vs)")
  case True
  from schema_path_exact [OF ct ne True, of env m] obtain ds ns where
    "specs (final_state (generate_dynamic_filters env (Some df) only m))
        = map EnumChoice (take (nat m) (filter (eligible_categorical df only (stored_values df))
                                           (dict_get ct ''categorical'')))
          @ map DateRange ds @ map NumericRange ns"
    "subseq ds (dict_get ct ''datetime'')" "subseq ns (dict_get ct ''numeric'')"
    "m \<le> int (length (filter (eligible_categorical df only (stored_values df))
                               (dict_get ct ''categorical''))) \<longrightarrow> ds = [] \<and> ns = []"
    by blast
  then show ?thesis
    by (intro exI [of _ "take (nat m) (filter (eligible_categorical df only (stored_values df))
                                           (dict_get ct ''categorical''))"]
        exI [of _ ds] exI [of _ ns]) (simp add: subseq_take_filter)
next
  case False
  with schema_path_specs [OF ct ne, of env only m] show ?thesis by blast
qed


lemma categorical_loop_skip:
  assumes "categorical_values data uv c = Inr vals" and "100 < length vals"
  shows "categorical_loop env data only m uv (pre @ c # post) st
           = categorical_loop env data only m uv (pre @ post) st"
proof (induction pre arbitrary: st)
  case Nil
  show ?case
  proof (cases "m \<le> int (filter_count st)")
    case True
    then show ?thesis by (simp add: categorical_loop_full)
  next
    case False
    with assms show ?thesis by simp
  qed
next
  case (Cons a pre)
  then show ?case by (simp split: sum.splits)
qed

lemma getitem_attrs [simp]:
  "getitem (df\<lparr>attrs_column_types := a\<rparr>) col = getitem df col"
  by (simp add: getitem_def cong: option.case_cong)

lemma sorted_values_attrs [simp]:
  "sorted_values (df\<lparr>attrs_column_types := a\<rparr>) col = sorted_values df col"
  by (simp add: sorted_values_def)

lemma categorical_values_attrs [simp]:
  "categorical_values (df\<lparr>attrs_column_types := a\<rparr>) uv col = categorical_values df uv col"
  by (simp add: categorical_values_def cong: option.case_cong)

lemma date_step_attrs [simp]:
  "date_step env (df\<lparr>attrs_column_types := a\<rparr>) col st = date_step env df col st"
  by (simp add: date_step_def date_bounds_def)

lemma numeric_step_attrs [simp]:
  "numeric_step env (df\<lparr>attrs_column_types := a\<rparr>) col st = numeric_step env df col st"
  by (simp add: numeric_step_def numeric_bounds_def)

lemma categorical_loop_attrs [simp]:
  "categorical_loop env (df\<lparr>attrs_column_types := a\<rparr>) only m uv cols st
     = categorical_loop env df only m uv cols st"
  by (induction cols arbitrary: st) (simp_all split: sum.splits)

lemma date_loop_attrs [simp]:
  "date_loop env (df\<lparr>attrs_column_types := a\<rparr>) only m cols st = date_loop env df only m cols st"
  by (induction cols arbitrary: st) simp_all

lemma numeric_loop_attrs [simp]:
  "numeric_loop env (df\<lparr>attrs_column_types := a\<rparr>) only m cols st
     = numeric_loop env df only m cols st"
  by (induction cols arbitrary: st) simp_all

lemma dict_get_update:
  "dict_get (AList.update k v d) k' = (if k' = k then v else dict_get d k')"
  by (simp add: dict_get_def update_conv')

text \<open>
  C8: in the schema-driven path a categorical column with more than 100 values is
  skipped without a control and without use of the budget: the call returns what it
  returns on the same frame with the column taken out of the schema's categorical
  list, selections, counter and controls alike.
\<close>

theorem oversized_column_skipped:
  assumes ct: "attrs_column_types df = Some ct"
    and cats: "dict_get ct ''categorical'' = pre @ c # post"
    and vals: "categorical_values df (stored_values df) c = Inr vals"
    and big: "100 < length vals"
  shows "generate_dynamic_filters env (Some df) only m =
         generate_dynamic_filters env
           (Some (df\<lparr>attrs_column_types := Some (AList.update ''categorical'' (pre @ post) ct)\<rparr>))
           only m"
proof (cases "empty df")
  case True
  then show ?thesis by (simp add: generate_dynamic_filters_def empty_def)
next
  case False
  let ?df = "df\<lparr>attrs_column_types := Some (AList.update ''categorical'' (pre @ post) ct)\<rparr>"
  have e: "\<not> empty ?df" using False by (simp add: empty_def)
  have a: "attrs_column_types ?df = Some (AList.update ''categorical'' (pre @ post) ct)" by simp
  have s: "stored_values ?df = stored_values df" by (simp add: stored_values_def)
  show ?thesis
    unfolding schema_path_def' [OF ct False] schema_path_def' [OF a e] s
    by (simp add: dict_get_update cats categorical_loop_skip [OF vals big] cong: sum.case_cong)
qed

lemma wide_run2:
  "specs (final_state (generate_dynamic_filters default_env (Some wide_df) None 2))
     = [EnumChoice ''Region'', EnumChoice ''Status'']"
  by (simp add: wide_df_def generate_dynamic_filters_def schema_df_def empty_def getitem_def cell_at_def
      unique_def sorted_values_def categorical_values_def stored_values_def dropna_def
      py_sorted_def sortable_def dict_get_def
      selectbox_step_def date_step_def date_bounds_def series_min_def series_max_def
      numeric_step_def numeric_bounds_def float_of_def step_size_def
      default_env_def initial_state_def final_state_def specs_def
      map_filter_def not_requested_def Let_def)

text \<open>
  Witness for C8: 101 values are stored for \<open>Code\<close>; with a budget of 2 the two columns
  after it still get their enum choices.
\<close>

theorem oversized_column_skipped_witness:
  "attrs_column_types wide_df = Some [(''categorical'', [''Code'', ''Region'', ''Status'']),
                                      (''datetime'', [''Created'']), (''numeric'', [''Score''])]
   \<and> categorical_values wide_df (stored_values wide_df) ''Code''
       = Inr (map (\<lambda>i. Num (of_nat i)) [0..<101])
   \<and> 100 < length (map (\<lambda>i. Num (of_nat i) :: cell) [0..<101])
   \<and> generate_dynamic_filters default_env (Some wide_df) None 2
       = generate_dynamic_filters default_env
           (Some (wide_df\<lparr>attrs_column_types :=
                     Some [(''categorical'', [''Region'', ''Status'']),
                           (''datetime'', [''Created'']), (''numeric'', [''Score''])]\<rparr>))
           None 2
   \<and> specs (final_state (generate_dynamic_filters default_env (Some wide_df) None 2))
       = [EnumChoice ''Region'', EnumChoice ''Status'']"
proof -
  let ?ct = "[(''categorical'', [''Code'', ''Region'', ''Status'']),
              (''datetime'', [''Created'']), (''numeric'', [''Score''])]"
  have a: "attrs_column_types wide_df = Some ?ct"
    by (simp add: wide_df_def)
  have c: "dict_get ?ct ''categorical'' = [] @ ''Code'' # [''Region'', ''Status'']"
    by (simp add: dict_get_def)
  have v: "categorical_values wide_df (stored_values wide_df) ''Code''
             = Inr (map (\<lambda>i. Num (of_nat i)) [0..<101])"
    by (simp add: categorical_values_def stored_values_def wide_df_def)
  have b: "100 < length (map (\<lambda>i. Num (of_nat i) :: cell) [0..<101])"
    by simp
  from oversized_column_skipped [OF a c v b, of default_env None 2] a v b wide_run2
  show ?thesis by simp
qed

text \<open>
  Witness for C4: the schema lists two categorical columns, one date column and one
  numeric column, all eligible (a budget of 4 gives the four controls in the order of
  the kinds); a budget of 2 gives the two enum choices and nothing else.
\<close>

theorem kind_priority_witness:
  "attrs_column_types schema_df = Some [(''categorical'', [''Region'', ''Status'']),
                                        (''datetime'', [''Created'']), (''numeric'', [''Score''])]
   \<and> \<not> empty schema_df
   \<and> eligible_categorical schema_df None (stored_values schema_df) ''Region''
   \<and> eligible_categorical schema_df None (stored_values schema_df) ''Status''
   \<and> specs (final_state (generate_dynamic_filters default_env (Some schema_df) None 4))
       = [EnumChoice ''Region'', EnumChoice ''Status'', DateRange ''Created'',
          NumericRange ''Score'']
   \<and> specs (final_state (generate_dynamic_filters default_env (Some schema_df) None 2))
       = [EnumChoice ''Region'', EnumChoice ''Status'']"
proof -
  have a: "attrs_column_types schema_df = Some [(''categorical'', [''Region'', ''Status'']),
                                        (''datetime'', [''Created'']), (''numeric'', [''Score''])]"
    by (simp add: schema_df_def)
  have e: "\<not> empty schema_df"
    by (simp add: empty_def schema_df_def)
  have g: "eligible_categorical schema_df None (stored_values schema_df) ''Region''"
    "eligible_categorical schema_df None (stored_values schema_df) ''Status''"
    by (simp_all add: eligible_categorical_def not_requested_def categorical_values_def
        stored_values_def sorted_values_def schema_df_def getitem_def cell_at_def dropna_def
        unique_def py_sorted_def sortable_def)
  from kind_priority [OF a e, of default_env None 2] a e g schema_run4 schema_run2
  show ?thesis by (simp add: final_state_def specs_def map_filter_def)
qed

text \<open>
  C3: for every dataset, every list of requested columns and every \<open>maxFilters\<close> (a
  count of controls, so not negative), the synthesizer makes at most \<open>maxFilters\<close>
  controls, in the schema-driven path and in the path without a schema, whether it
  returns or raises; the bound is on all kinds together.
\<close>

theorem budget_respected:
  assumes "0 \<le> m"
  shows "int (length (specs (final_state (generate_dynamic_filters env data only m)))) \<le> m"
  using assms by (rule generate_budget)

text \<open>
  Witness for C3: with a budget of 3 the frame with four eligible columns gets
  three controls, two enum choices and one date range.
\<close>

theorem budget_respected_witness:
  "(0::int) \<le> 3
   \<and> specs (final_state (generate_dynamic_filters default_env (Some schema_df) None 3))
       = [EnumChoice ''Region'', EnumChoice ''Status'', DateRange ''Created'']
   \<and> int (length (specs (final_state
         (generate_dynamic_filters default_env (Some schema_df) None 3)))) \<le> 3"
proof -
  have h: "(0::int) \<le> 3" by simp
  from budget_respected [OF h, of default_env "Some schema_df" None] schema_run3
  show ?thesis by simp
qed

section \<open>The end-to-end scenario, run\<close>

lemma length_insort_cell: "length (insort_cell x xs) = Suc (length xs)"
  by (induction xs) auto

lemma length_sorted_cells: "length (foldr insort_cell xs []) = length xs"
  by (induction xs) (auto simp: length_insort_cell)

lemma cyclic_column_on:
  assumes c: "cells s = map (\<lambda>i. g (i mod m)) [0..<n]"
    and inj: "inj_on g {0..<m}" and na: "\<And>k. g k \<noteq> NA" and m: "0 < m" "m \<le> n"
  shows "nunique s = m" and "length (dropna (cells s)) = n"
proof -
  have d: "dropna (cells s) = cells s"
    by (simp add: dropna_def c na)
  show "length (dropna (cells s)) = n"
    by (simp only: d) (simp add: c)
  have "set (cells s) = g ` ((\<lambda>i. i mod m) ` {0..<n})"
    by (simp add: c image_image)
  also have "\<dots> = g ` {0..<m}" by (simp only: mod_image [OF m])
  finally have "card (set (cells s)) = m"
    using inj by (simp add: card_image)
  then show "nunique s = m"
    by (simp add: nunique_def d length_unique)
qed

lemma inj_on_letter:
  assumes "distinct xs"
  shows "inj_on (\<lambda>k. Str (p @ [xs ! k])) {0..<length xs}"
proof (rule inj_onI)
  fix a b assume a: "a \<in> {0..<length xs}" and b: "b \<in> {0..<length xs}"
    and e: "Str (p @ [xs ! a]) = Str (p @ [xs ! b])"
  from e have "xs ! a = xs ! b" by simp
  with assms a b show "a = b" by (simp add: nth_eq_iff_index_eq)
qed

lemma kind_categorical:
  assumes "\<not> name_has id_terms col" "dtype s \<noteq> numeric" "\<not> name_has date_terms col"
    "0 < nunique s" "nunique s \<le> 50"
  shows "classify env col s = Some Categorical"
proof -
  from assms(4) have "dropna (cells s) \<noteq> []"
    by (auto simp: nunique_def unique_def)
  then have "\<not> isna_all s" by (rule dropna_not_all)
  with assms show ?thesis by (simp add: classify_def)
qed

lemma scenario_specs:
  assumes cols: "columns df = [(''Supplier'', object), (''Category'', object),
                               (''Amount'', numeric), (''Date'', object)]"
    and u: "uniform df"
    and s1: "getitem df ''Supplier'' = Inr s1" and n1: "nunique s1 = 20"
    and s2: "getitem df ''Category'' = Inr s2" and n2: "nunique s2 = 5"
    and s4: "getitem df ''Date'' = Inr s4" and d4: "dropna (cells s4) \<noteq> []"
    and p4: "to_datetime_ok env s4"
  shows "\<exists>st. classify_then_synthesize env df None 3 = Inr st
           \<and> specs st = [EnumChoice ''Supplier'', EnumChoice ''Category'']"
proof -
  have names: "\<not> name_has id_terms ''Supplier''" "\<not> name_has date_terms ''Supplier''"
    "\<not> name_has id_terms ''Category''" "\<not> name_has date_terms ''Category''"
    "\<not> name_has id_terms ''Amount''" "name_has money_terms ''Amount''"
    "\<not> name_has id_terms ''Date''" "name_has date_terms ''Date''"
    by (simp_all add: name_has_def id_terms_def date_terms_def money_terms_def lower_def
        lower_char_def)
  from cols s1 have t1: "dtype s1 = object" by (auto simp: getitem_def)
  from cols s2 have t2: "dtype s2 = object" by (auto simp: getitem_def)
  from cols s4 have t4: "dtype s4 = object" by (auto simp: getitem_def)
  from cols obtain s3 where s3: "getitem df ''Amount'' = Inr s3" and t3: "dtype s3 = numeric"
    by (auto simp: getitem_def)
  have k1: "kind_of env df ''Supplier'' = Some Categorical"
    using kind_categorical [of "''Supplier''" s1 env] names t1 n1 s1 by (simp add: kind_of_def)
  have k2: "kind_of env df ''Category'' = Some Categorical"
    using kind_categorical [of "''Category''" s2 env] names t2 n2 s2 by (simp add: kind_of_def)
  have k3: "kind_of env df ''Amount'' = Some Monetary \<or> kind_of env df ''Amount'' = None"
    using names s3 t3 by (simp add: kind_of_def classify_def)
  have k4: "kind_of env df ''Date'' = Some DateKind"
    using names s4 t4 p4 dropna_not_all [OF d4] by (simp add: kind_of_def classify_def)
  have cat: "cols_of_kind env df Categorical = [''Supplier'', ''Category'']"
    using k1 k2 k3 k4 by (auto simp: cols_of_kind_def cols)
  have num: "cols_of_kind env df Numeric = []"
    using k1 k2 k3 k4 by (auto simp: cols_of_kind_def cols)
  let ?uv = "unique_vals (fold (classify_step env df) (map fst (columns df)) no_types)"
  let ?ct = "[(''numeric'', cols_of_kind env df Numeric),
              (''date'', cols_of_kind env df DateKind),
              (''monetary'', cols_of_kind env df Monetary),
              (''categorical'', cols_of_kind env df Categorical),
              (''id'', cols_of_kind env df Identifier),
              (''text'', cols_of_kind env df Text)]"
  let ?df = "df\<lparr>attrs_column_types := Some ?ct, attrs_unique_values := Some ?uv\<rparr>"
  have det: "detect_column_types env df = Inr ?df"
    by (rule detect_column_types_uniform [OF u])
  have g: "getitem ?df c = getitem df c" for c
    by (simp add: getitem_def cong: option.case_cong)
  have m1: "map_of ?uv ''Supplier'' = Some (foldr insort_cell (unique (dropna (cells s1))) [])"
    by (simp only: fold_unique_vals) (simp add: cols k1 s1)
  have m2: "map_of ?uv ''Category'' = Some (foldr insort_cell (unique (dropna (cells s2))) [])"
    by (simp only: fold_unique_vals) (simp add: cols k2 s2)
  have sv: "stored_values ?df = ?uv" by (simp add: stored_values_def)
  have v1: "categorical_values ?df (stored_values ?df) ''Supplier''
              = Inr (foldr insort_cell (unique (dropna (cells s1))) [])"
    unfolding sv categorical_values_def by (simp only: m1 option.case)
  have v2: "categorical_values ?df (stored_values ?df) ''Category''
              = Inr (foldr insort_cell (unique (dropna (cells s2))) [])"
    unfolding sv categorical_values_def by (simp only: m2 option.case)
  have e1: "eligible_categorical ?df None (stored_values ?df) ''Supplier''"
    using n1 by (simp add: eligible_categorical_def not_requested_def v1 length_sorted_cells
        nunique_def)
  have e2: "eligible_categorical ?df None (stored_values ?df) ''Category''"
    using n2 by (simp add: eligible_categorical_def not_requested_def v2 length_sorted_cells
        nunique_def)
  have a: "attrs_column_types ?df = Some ?ct" by simp
  have ne: "\<not> empty ?df"
  proof -
    from n1 have "cells s1 \<noteq> []" by (auto simp: nunique_def unique_def dropna_def)
    with s1 cols have "rows df \<noteq> []" by (auto simp: getitem_def)
    with cols show ?thesis by (simp add: empty_def)
  qed
  have dc: "dict_get ?ct ''categorical'' = [''Supplier'', ''Category'']"
    "dict_get ?ct ''datetime'' = []" "dict_get ?ct ''numeric'' = []"
    by (simp_all add: dict_get_def cat num)
  have ok: "\<forall>c \<in> set [''Supplier'', ''Category'']. not_requested None c
              \<or> (\<exists>vs. categorical_values ?df (stored_values ?df) c = Inr vs)"
    using v1 v2 by simp
  from categorical_loop_exact [OF ok, of env 3 initial_state]
  obtain st1 where c: "categorical_loop env ?df None 3 (stored_values ?df)
        [''Supplier'', ''Category''] initial_state = Inr st1"
    and sp: "specs st1 = map EnumChoice (take (nat 3)
               (filter (eligible_categorical ?df None (stored_values ?df))
                  [''Supplier'', ''Category'']))"
    by (auto simp: initial_specs)
  from sp e1 e2 have sp': "specs st1 = [EnumChoice ''Supplier'', EnumChoice ''Category'']"
    by simp
  have "generate_dynamic_filters env (Some ?df) None 3 = Inr st1"
    unfolding schema_path_def' [OF a ne] dc using c by simp
  with det sp' show ?thesis
    by (simp add: classify_then_synthesize_def)
qed


lemma scenario_columns:
  "columns scenario_df = [(''Supplier'', object), (''Category'', object),
                          (''Amount'', numeric), (''Date'', object)]"
  by (simp add: scenario_df_def)

lemma scenario_supplier:
  "getitem scenario_df ''Supplier'' =
     Inr \<lparr>dtype = object,
          cells = map (\<lambda>i. Str (''Supplier '' @ [''ABCDEFGHIJKLMNOPQRST'' ! (i mod 20)])) [0..<200]\<rparr>"
  by (simp add: getitem_def scenario_df_def scenario_row_def cell_at_def o_def)

lemma scenario_category:
  "getitem scenario_df ''Category'' =
     Inr \<lparr>dtype = object,
          cells = map (\<lambda>i. Str (''Category '' @ [''ABCDE'' ! (i mod 5)])) [0..<200]\<rparr>"
  by (simp add: getitem_def scenario_df_def scenario_row_def cell_at_def o_def)

lemma scenario_amount:
  "getitem scenario_df ''Amount'' =
     Inr \<lparr>dtype = numeric, cells = map (\<lambda>i. Num (of_nat (100 + 250 * i))) [0..<200]\<rparr>"
  by (simp add: getitem_def scenario_df_def scenario_row_def cell_at_def o_def)

lemma scenario_date:
  "getitem scenario_df ''Date'' =
     Inr \<lparr>dtype = object,
          cells = map (\<lambda>i. Str (if even i then ''2022-01-01'' else ''2023-12-31'')) [0..<200]\<rparr>"
  by (simp add: getitem_def scenario_df_def scenario_row_def cell_at_def o_def)

lemma uniform_numbers: "uniform_series \<lparr>dtype = dt, cells = map (\<lambda>i. Num (f i)) xs\<rparr>"
  by (simp add: uniform_series_def list_all_iff)

lemma scenario_uniform: "uniform scenario_df"
proof -
  have "map fst (columns scenario_df) = [''Supplier'', ''Category'', ''Amount'', ''Date'']"
    by (simp add: scenario_df_def)
  then show ?thesis
    by (simp add: uniform_def scenario_supplier scenario_category scenario_amount scenario_date
        uniform_texts uniform_numbers)
qed

lemma scenario_supplier_distinct:
  "nunique \<lparr>dtype = object,
      cells = map (\<lambda>i. Str (''Supplier '' @ [''ABCDEFGHIJKLMNOPQRST'' ! (i mod 20)])) [0..<200]\<rparr>
   = 20"
proof (rule cyclic_column_on(1) [where g = "\<lambda>k. Str (''Supplier '' @ [''ABCDEFGHIJKLMNOPQRST'' ! k])"
      and n = 200])
  have len: "length ''ABCDEFGHIJKLMNOPQRST'' = 20" by simp
  have "distinct ''ABCDEFGHIJKLMNOPQRST''" by simp
  from inj_on_letter [OF this, of "''Supplier ''"]
  show "inj_on (\<lambda>k. Str (''Supplier '' @ [''ABCDEFGHIJKLMNOPQRST'' ! k])) {0..<20}"
    by (simp only: len)
qed simp_all

lemma scenario_category_distinct:
  "nunique \<lparr>dtype = object,
      cells = map (\<lambda>i. Str (''Category '' @ [''ABCDE'' ! (i mod 5)])) [0..<200]\<rparr>
   = 5"
proof (rule cyclic_column_on(1) [where g = "\<lambda>k. Str (''Category '' @ [''ABCDE'' ! k])"
      and n = 200])
  have len: "length ''ABCDE'' = 5" by simp
  have "distinct ''ABCDE''" by simp
  from inj_on_letter [OF this, of "''Category ''"]
  show "inj_on (\<lambda>k. Str (''Category '' @ [''ABCDE'' ! k])) {0..<5}"
    by (simp only: len)
qed simp_all

lemma scenario_date_values:
  "dropna (cells \<lparr>dtype = object,
      cells = map (\<lambda>i. Str (if even i then ''2022-01-01'' else ''2023-12-31'')) [0..<200]\<rparr>) \<noteq> []"
  "to_datetime_ok default_env \<lparr>dtype = object,
      cells = map (\<lambda>i. Str (if even i then ''2022-01-01'' else ''2023-12-31'')) [0..<200]\<rparr>"
  by (simp_all add: dropna_def to_datetime_ok_def default_env_def list_all_iff)

text \<open>
  C2, amended: for a dataset with the columns \<open>Supplier\<close> (text, 20 distinct values),
  \<open>Category\<close> (text, 5 distinct values), \<open>Amount\<close> (numeric) and \<open>Date\<close> (date texts
  that parse), the classifier followed by the synthesizer with a budget of 3 returns,
  and the enum choices it makes are those of \<open>Supplier\<close> and \<open>Category\<close>, in the order
  of the dataset's columns; no control is made for \<open>Amount\<close>.
\<close>

theorem scenario_enum_choices:
  assumes "columns df = [(''Supplier'', object), (''Category'', object),
                         (''Amount'', numeric), (''Date'', object)]"
    and "uniform df"
    and "getitem df ''Supplier'' = Inr s1" and "nunique s1 = 20"
    and "getitem df ''Category'' = Inr s2" and "nunique s2 = 5"
    and "getitem df ''Date'' = Inr s4" and "dropna (cells s4) \<noteq> []"
    and "to_datetime_ok env s4"
  shows "\<exists>st. classify_then_synthesize env df None 3 = Inr st
           \<and> filter is_enum_choice (specs st) = [EnumChoice ''Supplier'', EnumChoice ''Category'']
           \<and> ''Amount'' \<notin> spec_col ` set (specs st)"
proof -
  from scenario_specs [OF assms] obtain st where
    "classify_then_synthesize env df None 3 = Inr st"
    "specs st = [EnumChoice ''Supplier'', EnumChoice ''Category'']"
    by blast
  then show ?thesis by (intro exI [of _ st]) simp
qed

text \<open>Witness for C2 (amended): the scenario frame of 200 rows.\<close>

theorem scenario_enum_choices_witness:
  "columns scenario_df = [(''Supplier'', object), (''Category'', object),
                          (''Amount'', numeric), (''Date'', object)]
   \<and> uniform scenario_df
   \<and> getitem scenario_df ''Supplier'' =
       Inr \<lparr>dtype = object,
            cells = map (\<lambda>i. Str (''Supplier '' @ [''ABCDEFGHIJKLMNOPQRST'' ! (i mod 20)])) [0..<200]\<rparr>
   \<and> nunique \<lparr>dtype = object,
        cells = map (\<lambda>i. Str (''Supplier '' @ [''ABCDEFGHIJKLMNOPQRST'' ! (i mod 20)])) [0..<200]\<rparr>
       = 20
   \<and> getitem scenario_df ''Category'' =
       Inr \<lparr>dtype = object,
            cells = map (\<lambda>i. Str (''Category '' @ [''ABCDE'' ! (i mod 5)])) [0..<200]\<rparr>
   \<and> nunique \<lparr>dtype = object,
        cells = map (\<lambda>i. Str (''Category '' @ [''ABCDE'' ! (i mod 5)])) [0..<200]\<rparr> = 5
   \<and> getitem scenario_df ''Date'' =
       Inr \<lparr>dtype = object,
            cells = map (\<lambda>i. Str (if even i then ''2022-01-01'' else ''2023-12-31'')) [0..<200]\<rparr>
   \<and> to_datetime_ok default_env \<lparr>dtype = object,
        cells = map (\<lambda>i. Str (if even i then ''2022-01-01'' else ''2023-12-31'')) [0..<200]\<rparr>
   \<and> (\<exists>st. classify_then_synthesize default_env scenario_df None 3 = Inr st
          \<and> filter is_enum_choice (specs st) = [EnumChoice ''Supplier'', EnumChoice ''Category'']
          \<and> ''Amount'' \<notin> spec_col ` set (specs st))"
  using scenario_enum_choices [OF scenario_columns scenario_uniform scenario_supplier
      scenario_supplier_distinct scenario_category scenario_category_distinct scenario_date
      scenario_date_values]
    scenario_columns scenario_uniform scenario_supplier scenario_supplier_distinct
    scenario_category scenario_category_distinct scenario_date scenario_date_values(2)
  by (intro conjI) assumption+

text \<open>
  C2, as stated, fails on the scenario frame: the controls are the enum choice of
  \<open>Supplier\<close> and then that of \<open>Category\<close>, in the order of the dataset's columns, and
  there is no third one.  The classifier stores the date columns under the key \<open>date\<close>,
  the synthesizer reads the key \<open>datetime\<close>.
\<close>

theorem scenario_specs_differ:
  "specs (final_state (classify_then_synthesize default_env scenario_df None 3))
     = [EnumChoice ''Supplier'', EnumChoice ''Category'']
   \<and> specs (final_state (classify_then_synthesize default_env scenario_df None 3))
     \<noteq> [EnumChoice ''Category'', EnumChoice ''Supplier'', DateRange ''Date'']"
proof -
  from scenario_specs [OF scenario_columns scenario_uniform scenario_supplier
      scenario_supplier_distinct scenario_category scenario_category_distinct scenario_date
      scenario_date_values]
  obtain st where "classify_then_synthesize default_env scenario_df None 3 = Inr st"
    "specs st = [EnumChoice ''Supplier'', EnumChoice ''Category'']"
    by blast
  then show ?thesis by (simp add: final_state_def)
qed

end
